theory Spec2Isabelle
  imports Complex_Main "HOL-Library.AList"
begin

section \<open>Intelligent Study Planner: data model\<close>

text \<open>
  The planner keeps its subjects in a Python list of dictionaries with the keys
  \<^verbatim>\<open>name\<close>, \<^verbatim>\<open>difficulty\<close>, \<^verbatim>\<open>deadline\<close> and \<^verbatim>\<open>marks\<close>. A subject is a
  record here. A \<^verbatim>\<open>datetime.date\<close> is its proleptic Gregorian ordinal (what
  \<^verbatim>\<open>date.toordinal()\<close> returns): day 1 is 0001-01-01 and \<^verbatim>\<open>date.max\<close>, 9999-12-31,
  is day 3652059. Differences of dates are differences of ordinals, and adding
  \<^verbatim>\<open>timedelta(days=1)\<close> to \<^verbatim>\<open>date.max\<close> raises \<^verbatim>\<open>OverflowError\<close>.
\<close>

record subject =
  name :: string
  difficulty :: int
  deadline :: int
  marks :: int

datatype error = ValueError | KeyError | OverflowError

definition MAXORDINAL :: int where
  "MAXORDINAL = 3652059"

definition days_between :: "int \<Rightarrow> int \<Rightarrow> int" where
  "days_between a b = b - a"

section \<open>Clash detection and rearrangement\<close>

text \<open>
  \<^verbatim>\<open>detect_clashes\<close> compares the number of deadlines with the number of distinct
  deadlines.
\<close>

definition detect_clashes :: "subject list \<Rightarrow> bool" where
  "detect_clashes subs =
     (let dates = map deadline subs in length dates \<noteq> card (set dates))"

text \<open>
  The inner loop of \<^verbatim>\<open>rearrange_schedule\<close>:
  \<^verbatim>\<open>while d in used: d += datetime.timedelta(days=1)\<close>.
  The addition raises once \<^verbatim>\<open>d\<close> is \<^verbatim>\<open>date.max\<close>; the distance to \<^verbatim>\<open>date.max\<close> is
  what makes the loop end.
\<close>

function next_free :: "int set \<Rightarrow> int \<Rightarrow> error + int" where
  "next_free used d =
     (if d \<in> used
      then (if MAXORDINAL \<le> d then Inl OverflowError else next_free used (d + 1))
      else Inr d)"
  by pat_completeness auto
termination
  by (relation "measure (\<lambda>(used, d). nat (MAXORDINAL - d))") auto

declare next_free.simps [simp del]

text \<open>
  \<^verbatim>\<open>sorted(subs, key=...)\<close> builds a new list that holds the same dictionaries, and the
  loop body writes the new deadline into the dictionary it visits, so the caller's list
  sees every update at the position the dictionary has there. The dictionaries are
  identified by their position in \<^verbatim>\<open>subs\<close>: the sorted list is the list of positions,
  sorted stably by the deadline found at each position before the loop starts (Python's
  sort is stable, as is \<^const>\<open>sort_key\<close>). An \<^verbatim>\<open>OverflowError\<close> leaves the loop with the
  updates made so far, which the left summand carries.
\<close>

fun rearrange_loop ::
  "nat list \<Rightarrow> int set \<Rightarrow> subject list \<Rightarrow> (error \<times> subject list) + subject list" where
  "rearrange_loop [] used subs = Inr subs"
| "rearrange_loop (i # is) used subs =
     (case next_free used (deadline (subs ! i)) of
        Inl e \<Rightarrow> Inl (e, subs)
      | Inr d \<Rightarrow> rearrange_loop is (insert d used) (subs[i := (subs ! i)\<lparr>deadline := d\<rparr>]))"

definition rearrange_schedule :: "subject list \<Rightarrow> (error \<times> subject list) + subject list" where
  "rearrange_schedule subs =
     rearrange_loop (sort_key (\<lambda>i. deadline (subs ! i)) [0..<length subs]) {} subs"

text \<open>
  The list the caller holds once \<^verbatim>\<open>rearrange_schedule\<close> has returned or raised.
\<close>

definition final_subjects :: "(error \<times> subject list) + subject list \<Rightarrow> subject list" where
  "final_subjects r = (case r of Inl (e, subs) \<Rightarrow> subs | Inr subs \<Rightarrow> subs)"

text \<open>
  Two subjects due on 2024-06-10 (ordinal 739047), and the same list with the second
  one moved to 2024-06-11.
\<close>

definition two_clashing :: "subject list" where
  "two_clashing =
     [\<lparr>name = ''Math'', difficulty = 2, deadline = 739047, marks = 50\<rparr>,
      \<lparr>name = ''Physics'', difficulty = 3, deadline = 739047, marks = 40\<rparr>]"

definition two_resolved :: "subject list" where
  "two_resolved =
     [\<lparr>name = ''Math'', difficulty = 2, deadline = 739047, marks = 50\<rparr>,
      \<lparr>name = ''Physics'', difficulty = 3, deadline = 739048, marks = 40\<rparr>]"


section \<open>Plan builder\<close>

text \<open>
  \<^verbatim>\<open>generate_plan\<close> builds a dictionary from subject names to entries with the keys
  \<^verbatim>\<open>daily_hours\<close>, \<^verbatim>\<open>days_left\<close> and \<^verbatim>\<open>deadline\<close>. A dictionary is an association
  list in insertion order; \<^verbatim>\<open>schedule[k] = v\<close> is \<^const>\<open>AList.update\<close>, which replaces the
  value of a key that is present and appends a new key at the end. The clock
  (\<^verbatim>\<open>datetime.date.today()\<close>) and the hour predictor (\<^verbatim>\<open>predict_study_hours\<close>, a
  regression model or a floating-point heuristic) are parameters.
\<close>

record plan_entry =
  daily_hours :: int
  days_left :: int
  plan_deadline :: int

definition plan_entry_of :: "(int \<Rightarrow> int \<Rightarrow> int) \<Rightarrow> int \<Rightarrow> subject \<Rightarrow> plan_entry" where
  "plan_entry_of predict_study_hours today s =
     \<lparr>daily_hours = predict_study_hours (difficulty s) (marks s),
      days_left = max 1 (days_between today (deadline s)),
      plan_deadline = deadline s\<rparr>"

definition generate_plan ::
  "(int \<Rightarrow> int \<Rightarrow> int) \<Rightarrow> int \<Rightarrow> subject list \<Rightarrow> (string \<times> plan_entry) list option" where
  "generate_plan predict_study_hours today subs =
     (if subs = [] then None
      else Some (fold (\<lambda>s schedule.
              AList.update (name s) (plan_entry_of predict_study_hours today s) schedule)
            subs []))"

section \<open>Strings, integers and dates read from a command line\<close>

text \<open>
  The library functions the commands call, for ASCII text: \<^verbatim>\<open>str.split()\<close>,
  \<^verbatim>\<open>str.strip()\<close>, \<^verbatim>\<open>str.lower()\<close>, \<^verbatim>\<open>int(s)\<close> and
  \<^verbatim>\<open>datetime.strptime(s, "%Y-%m-%d").date()\<close>. A failed conversion (\<^verbatim>\<open>ValueError\<close>) is
  \<^const>\<open>None\<close>.
\<close>

definition is_space :: "char \<Rightarrow> bool" where
  "is_space c = (c \<in> set [CHR '' '', CHR 0x09, CHR 0x0A, CHR 0x0B, CHR 0x0C, CHR 0x0D,
                            CHR 0x1C, CHR 0x1D, CHR 0x1E, CHR 0x1F])"

fun split_from :: "string \<Rightarrow> string \<Rightarrow> string list" where
  "split_from word [] = (if word = [] then [] else [word])"
| "split_from word (c # cs) =
     (if is_space c then (if word = [] then split_from [] cs else word # split_from [] cs)
      else split_from (word @ [c]) cs)"

definition py_split :: "string \<Rightarrow> string list" where
  "py_split s = split_from [] s"

definition py_strip :: "string \<Rightarrow> string" where
  "py_strip s = rev (dropWhile is_space (rev (dropWhile is_space s)))"

definition lower_char :: "char \<Rightarrow> char" where
  "lower_char c =
     (case map_of (zip ''ABCDEFGHIJKLMNOPQRSTUVWXYZ'' ''abcdefghijklmnopqrstuvwxyz'') c of
        None \<Rightarrow> c | Some l \<Rightarrow> l)"

definition py_lower :: "string \<Rightarrow> string" where
  "py_lower s = map lower_char s"

definition digit_of :: "char \<Rightarrow> int option" where
  "digit_of c = map_of (zip ''0123456789'' [0, 1, 2, 3, 4, 5, 6, 7, 8, 9]) c"

definition is_digit :: "char \<Rightarrow> bool" where
  "is_digit c = (digit_of c \<noteq> None)"

text \<open>The value of a string of decimal digits, most significant first.\<close>

definition digits_value :: "string \<Rightarrow> int" where
  "digits_value s = foldl (\<lambda>acc c. 10 * acc + the (digit_of c)) 0 s"

fun no_double_underscore :: "string \<Rightarrow> bool" where
  "no_double_underscore (a # b # cs) =
     (\<not> (a = CHR ''_'' \<and> b = CHR ''_'') \<and> no_double_underscore (b # cs))"
| "no_double_underscore cs = True"

text \<open>
  \<^verbatim>\<open>int(s)\<close> in base ten: surrounding white space, an optional sign, then digits, where
  single underscores may stand between digits.
\<close>

definition unsigned_int :: "string \<Rightarrow> int option" where
  "unsigned_int s =
     (if s \<noteq> [] \<and> is_digit (hd s) \<and> is_digit (last s)
         \<and> list_all (\<lambda>c. is_digit c \<or> c = CHR ''_'') s \<and> no_double_underscore s
      then Some (digits_value (filter is_digit s)) else None)"

definition py_int :: "string \<Rightarrow> int option" where
  "py_int s =
     (case py_strip s of
        [] \<Rightarrow> None
      | c # cs \<Rightarrow>
          if c = CHR ''-'' then map_option uminus (unsigned_int cs)
          else if c = CHR ''+'' then unsigned_int cs
          else unsigned_int (c # cs))"

text \<open>
  The calendar of \<^verbatim>\<open>datetime\<close>: leap years, the days of a month, and the ordinal of a
  date.
\<close>

definition is_leap :: "int \<Rightarrow> bool" where
  "is_leap y = (y mod 4 = 0 \<and> (y mod 100 \<noteq> 0 \<or> y mod 400 = 0))"

definition days_in_month :: "int \<Rightarrow> int \<Rightarrow> int" where
  "days_in_month y m =
     (if m = 2 then (if is_leap y then 29 else 28)
      else if m \<in> set [4, 6, 9, 11] then 30 else 31)"

definition days_before_year :: "int \<Rightarrow> int" where
  "days_before_year y = (y - 1) * 365 + (y - 1) div 4 - (y - 1) div 100 + (y - 1) div 400"

definition days_before_month :: "int \<Rightarrow> int \<Rightarrow> int" where
  "days_before_month y m = sum_list (map (days_in_month y) [1..m - 1])"

definition ymd2ord :: "int \<Rightarrow> int \<Rightarrow> int \<Rightarrow> int" where
  "ymd2ord y m d = days_before_year y + days_before_month y m + d"

text \<open>The fields of a string between the occurrences of a separator.\<close>

fun fields_from :: "char \<Rightarrow> string \<Rightarrow> string \<Rightarrow> string list" where
  "fields_from sep field [] = [field]"
| "fields_from sep field (c # cs) =
     (if c = sep then field # fields_from sep [] cs else fields_from sep (field @ [c]) cs)"

text \<open>
  \<^verbatim>\<open>strptime\<close> with the format \<^verbatim>\<open>%Y-%m-%d\<close> accepts four digits, a dash, a month
  written with one or two digits, a dash and a day written with one or two digits, and
  nothing after it; the date must exist.
\<close>

definition parse_date :: "string \<Rightarrow> int option" where
  "parse_date s =
     (case fields_from (CHR ''-'') [] s of
        [ys, ms, ds] \<Rightarrow>
          (let y = digits_value ys; m = digits_value ms; d = digits_value ds in
           if list_all is_digit (ys @ ms @ ds) \<and> length ys = 4
              \<and> length ms \<in> set [1, 2] \<and> length ds \<in> set [1, 2]
              \<and> 1 \<le> y \<and> 1 \<le> m \<and> m \<le> 12 \<and> 1 \<le> d \<and> d \<le> days_in_month y m
           then Some (ymd2ord y m d) else None)
      | _ \<Rightarrow> None)"

section \<open>Commands on the subject store\<close>

text \<open>
  The module-level list \<^verbatim>\<open>subjects\<close> and the file \<^verbatim>\<open>save_subjects\<close> writes are the
  two components of the store; every command takes the store and returns the lines it
  prints, by kind, with the store it leaves. \<^verbatim>\<open>difficulty_map\<close> is read from a
  configuration file when the module is loaded and is a parameter, as is the answer
  the user types when \<^verbatim>\<open>handle_clashes\<close> asks.
\<close>

record store =
  subjects :: "subject list"
  saved :: "subject list"

datatype message =
    InvalidFormatAdd | InvalidDiff | InvalidDate | MarksNotInteger | Added
  | ClashDetected | Rearranged | KeepingOriginal
  | InvalidFormatRes | NotFound | Rescheduled
  | Raised error

definition DEFAULT_DIFF :: "(string \<times> int) list" where
  "DEFAULT_DIFF = [(''low'', 1), (''medium'', 2), (''high'', 3)]"

definition save_subjects :: "store \<Rightarrow> store" where
  "save_subjects st = st\<lparr>saved := subjects st\<rparr>"

text \<open>
  \<^verbatim>\<open>handle_clashes\<close> groups the names by deadline
  (\<^verbatim>\<open>date_map.setdefault(d, []).append(name)\<close>) and keeps the groups with more than
  one name.
\<close>

definition date_map :: "subject list \<Rightarrow> (int \<times> string list) list" where
  "date_map subs =
     fold (\<lambda>s m. AList.update (deadline s)
             ((case map_of m (deadline s) of None \<Rightarrow> [] | Some names \<Rightarrow> names) @ [name s]) m)
       subs []"

definition conflicts :: "subject list \<Rightarrow> (int \<times> string list) list" where
  "conflicts subs = filter (\<lambda>(d, names). 1 < length names) (date_map subs)"

definition handle_clashes :: "string \<Rightarrow> store \<Rightarrow> message list \<times> store" where
  "handle_clashes choice st =
     (if conflicts (subjects st) = [] then ([], st)
      else if py_lower (py_strip choice) = ''yes''
      then (case rearrange_schedule (subjects st) of
              Inl (e, subs') \<Rightarrow> ([ClashDetected, Raised e], st\<lparr>subjects := subs'\<rparr>)
            | Inr subs' \<Rightarrow>
                ([ClashDetected, Rearranged], save_subjects (st\<lparr>subjects := subs'\<rparr>)))
      else ([ClashDetected, KeepingOriginal], st))"

definition add_subject_command ::
  "(string \<times> int) list \<Rightarrow> string \<Rightarrow> string \<Rightarrow> store \<Rightarrow> message list \<times> store" where
  "add_subject_command difficulty_map cmd choice st =
     (let parts = py_split cmd in
      if length parts \<noteq> 6 then ([InvalidFormatAdd], st)
      else
        let name' = parts ! 2; diff_str = parts ! 3;
            deadline_str = parts ! 4; marks_str = parts ! 5
        in case map_of difficulty_map (py_lower diff_str) of
             None \<Rightarrow> ([InvalidDiff], st)
           | Some diff \<Rightarrow>
               (case parse_date deadline_str of
                  None \<Rightarrow> ([InvalidDate], st)
                | Some deadline' \<Rightarrow>
                    (case py_int marks_str of
                       None \<Rightarrow> ([MarksNotInteger], st)
                     | Some marks' \<Rightarrow>
                         let subject = \<lparr>name = name', difficulty = diff,
                                        deadline = deadline', marks = marks'\<rparr>;
                             st1 = save_subjects (st\<lparr>subjects := subjects st @ [subject]\<rparr>)
                         in if detect_clashes (subjects st1)
                            then (let (out, st2) = handle_clashes choice st1
                                  in (Added # out, st2))
                            else ([Added], st1))))"

text \<open>
  The loop of \<^verbatim>\<open>reschedule_subject\<close> walks the list and writes the new deadline into
  the first subject that carries the name; the result is whether it found one, and the
  list as the loop leaves it.
\<close>

fun reschedule_loop :: "string \<Rightarrow> int \<Rightarrow> subject list \<Rightarrow> bool \<times> subject list" where
  "reschedule_loop n new_date [] = (False, [])"
| "reschedule_loop n new_date (s # ss) =
     (if name s = n then (True, s\<lparr>deadline := new_date\<rparr> # ss)
      else (let (found, ss') = reschedule_loop n new_date ss in (found, s # ss')))"

definition reschedule_subject :: "string \<Rightarrow> store \<Rightarrow> message list \<times> store" where
  "reschedule_subject cmd st =
     (let parts = py_split cmd in
      if length parts \<noteq> 3 then ([InvalidFormatRes], st)
      else
        let name' = parts ! 1; new_date_str = parts ! 2
        in case parse_date new_date_str of
             None \<Rightarrow> ([InvalidDate], st)
           | Some new_date \<Rightarrow>
               (let (found, subs') = reschedule_loop name' new_date (subjects st)
                in if found then ([Rescheduled], save_subjects (st\<lparr>subjects := subs'\<rparr>))
                   else ([NotFound], st\<lparr>subjects := subs'\<rparr>)))"

definition empty_store :: store where
  "empty_store = \<lparr>subjects = [], saved = []\<rparr>"



definition marks_150 :: subject where
  "marks_150 = \<lparr>name = ''Math'', difficulty = 1, deadline = 739252, marks = 150\<rparr>"


section \<open>Timetable\<close>

text \<open>
  A \<^verbatim>\<open>datetime\<close> is the number of microseconds since the midnight that starts day 0
  of the ordinal count, so \<^verbatim>\<open>datetime.combine(day, time(hour, 0))\<close> is
  \<open>day * 86400000000 + hour * 3600000000\<close>, and a \<^verbatim>\<open>timedelta\<close> is a number of
  microseconds. \<^verbatim>\<open>block_hours\<close> and the hours left are Python floats; they are exact
  rationals here, and \<^verbatim>\<open>timedelta(hours=q)\<close> rounds to the nearest microsecond, ties
  to even, as the constructor does. This section is the loop on exact numbers and
  without the range of \<^verbatim>\<open>datetime\<close> (years 1 to 9999): it agrees with the program
  where the float operations are exact (hours such as 1, 0.5 or 1.25 against integer
  quotas) and the times stay in the range, as in the scenario of the specification,
  which is evaluated on it. The section after it has the roundings, the range and the
  errors of the library; the two are related at the end of the theory.
\<close>

definition combine :: "int \<Rightarrow> int \<Rightarrow> int" where
  "combine day hour = day * 86400000000 + hour * 3600000000"

definition round_half_even :: "rat \<Rightarrow> int" where
  "round_half_even x =
     (let f = \<lfloor>x\<rfloor>; r = x - of_int f
      in if r < 1 / 2 then f else if 1 / 2 < r then f + 1 else if even f then f else f + 1)"

definition td_hours :: "rat \<Rightarrow> int" where
  "td_hours q = round_half_even (q * 3600000000)"

definition td_minutes :: "int \<Rightarrow> int" where
  "td_minutes m = m * 60000000"

text \<open>\<^verbatim>\<open>strftime('%H:%M')\<close>: the hour and the minute of the time of day, two digits each.\<close>

definition two_digits :: "int \<Rightarrow> string" where
  "two_digits n = [''0123456789'' ! nat (n div 10), ''0123456789'' ! nat (n mod 10)]"

definition strftime_HM :: "int \<Rightarrow> string" where
  "strftime_HM t =
     (let us = t mod 86400000000
      in two_digits (us div 3600000000) @ '':'' @ two_digits (us div 60000000 mod 60))"

text \<open>
  The program appends to \<^verbatim>\<open>day_schedule\<close> the line
  \<^verbatim>\<open>f"{current_time.strftime('%H:%M')} - {block_end.strftime('%H:%M')} : {sub_name}"\<close>.
  The model keeps the two times and the name of every block, and renders the lines at
  the end.
\<close>

record block =
  b_start :: int
  b_end :: int
  b_name :: string

definition render_block :: "block \<Rightarrow> string" where
  "render_block b = strftime_HM (b_start b) @ '' - '' @ strftime_HM (b_end b) @ '' : '' @ b_name b"

text \<open>The variables the allocation loop of one day updates.\<close>

record day_state =
  hours_left :: "(string \<times> rat) list"
  current_time :: int
  day_schedule :: "block list"

text \<open>
  \<^verbatim>\<open>any(hours_left.values())\<close> holds when some value is not zero;
  \<^verbatim>\<open>all(h <= 0 for h in hours_left.values())\<close> when no value is positive.
\<close>

definition any_hours :: "(string \<times> rat) list \<Rightarrow> bool" where
  "any_hours hl = list_ex (\<lambda>(k, h). h \<noteq> 0) hl"

definition all_done :: "(string \<times> rat) list \<Rightarrow> bool" where
  "all_done hl = list_all (\<lambda>(k, h). h \<le> 0) hl"

text \<open>
  One run of \<^verbatim>\<open>for sub_name in day_order\<close>. The \<^verbatim>\<open>break\<close> leaves the loop with the
  state reached; a name that is not a key of \<^verbatim>\<open>hours_left\<close> raises \<^verbatim>\<open>KeyError\<close>.
\<close>

fun for_pass :: "rat \<Rightarrow> int \<Rightarrow> int \<Rightarrow> string list \<Rightarrow> day_state \<Rightarrow> error + day_state" where
  "for_pass block_hours break_minutes end_time [] st = Inr st"
| "for_pass block_hours break_minutes end_time (sub_name # rest) st =
     (case map_of (hours_left st) sub_name of
        None \<Rightarrow> Inl KeyError
      | Some h \<Rightarrow>
          if h \<le> 0 then for_pass block_hours break_minutes end_time rest st
          else
            let block_end = current_time st + td_hours (min block_hours h);
                st' = \<lparr>hours_left = AList.update sub_name (h - min block_hours h) (hours_left st),
                       current_time = block_end + td_minutes break_minutes,
                       day_schedule = day_schedule st
                         @ [\<lparr>b_start = current_time st, b_end = block_end, b_name = sub_name\<rparr>]\<rparr>
            in if current_time st' + td_hours block_hours > end_time then Inr st'
               else for_pass block_hours break_minutes end_time rest st')"

text \<open>
  The \<^verbatim>\<open>while\<close> loop of a day. It need not end (with \<^verbatim>\<open>block_hours = 0\<close> and no
  break the time never advances), so not returning is the value \<^const>\<open>None\<close>.
\<close>

partial_function (option) allocate ::
  "rat \<Rightarrow> int \<Rightarrow> int \<Rightarrow> string list \<Rightarrow> day_state \<Rightarrow> (error + day_state) option" where
  "allocate block_hours break_minutes end_time day_order st =
     (if current_time st + td_hours block_hours \<le> end_time \<and> any_hours (hours_left st)
      then (case for_pass block_hours break_minutes end_time day_order st of
              Inl e \<Rightarrow> Some (Inl e)
            | Inr st' \<Rightarrow>
                if all_done (hours_left st') then Some (Inr st')
                else allocate block_hours break_minutes end_time day_order st')
      else Some (Inr st))"

declare allocate.simps [code]

text \<open>
  The five values \<^verbatim>\<open>generate_timetable\<close> reads from the user, as \<^verbatim>\<open>int\<close> and
  \<^verbatim>\<open>float\<close> return them, and the order preference after \<^verbatim>\<open>strip().upper()\<close>.
\<close>

record window =
  start_hour :: int
  end_hour :: int
  block_hours :: rat
  break_minutes :: int
  order_pref :: string

definition active_subjects :: "subject list \<Rightarrow> int \<Rightarrow> subject list" where
  "active_subjects subs day_date = filter (\<lambda>s. day_date \<le> deadline s) subs"

definition day_order_of :: "string \<Rightarrow> string list \<Rightarrow> subject list \<Rightarrow> nat \<Rightarrow> string list" where
  "day_order_of pref fixed_order active day_offset =
     (if pref = ''A'' then map name (filter (\<lambda>s. name s \<in> set fixed_order) active)
      else if pref = ''B''
      then (let day_order = map name active; k = day_offset mod length day_order
            in drop k day_order @ take k day_order)
      else if pref = ''C'' then map name (sort_key deadline active)
      else map name active)"

text \<open>
  \<^verbatim>\<open>{s['name']: plan[s['name']]['daily_hours'] for s in active_subjects}\<close>; a name
  that is not a key of the plan raises \<^verbatim>\<open>KeyError\<close>.
\<close>

fun init_hours ::
  "(string \<times> plan_entry) list \<Rightarrow> subject list \<Rightarrow> (string \<times> rat) list \<Rightarrow> error + (string \<times> rat) list" where
  "init_hours plan [] acc = Inr acc"
| "init_hours plan (s # ss) acc =
     (case map_of plan (name s) of
        None \<Rightarrow> Inl KeyError
      | Some e \<Rightarrow> init_hours plan ss (AList.update (name s) (of_int (daily_hours e)) acc))"

text \<open>\<^verbatim>\<open>datetime.time(hour, 0)\<close> raises \<^verbatim>\<open>ValueError\<close> unless the hour is in 0..23.\<close>

definition valid_hour :: "int \<Rightarrow> bool" where
  "valid_hour h = (0 \<le> h \<and> h \<le> 23)"

text \<open>The body of \<^verbatim>\<open>for day_offset in range(total_days)\<close> for a day with active subjects.\<close>

definition schedule_day ::
  "window \<Rightarrow> (string \<times> plan_entry) list \<Rightarrow> string list \<Rightarrow> int \<Rightarrow> nat \<Rightarrow> subject list
     \<Rightarrow> (error + block list) option" where
  "schedule_day w plan fixed_order day_date day_offset active =
     (let day_order = day_order_of (order_pref w) fixed_order active day_offset
      in case init_hours plan active [] of
           Inl e \<Rightarrow> Some (Inl e)
         | Inr hl \<Rightarrow>
             if \<not> valid_hour (start_hour w) \<or> \<not> valid_hour (end_hour w) then Some (Inl ValueError)
             else (case allocate (block_hours w) (break_minutes w) (combine day_date (end_hour w))
                          day_order
                          \<lparr>hours_left = hl, current_time = combine day_date (start_hour w),
                           day_schedule = []\<rparr> of
                     None \<Rightarrow> None
                   | Some (Inl e) \<Rightarrow> Some (Inl e)
                   | Some (Inr st) \<Rightarrow> Some (Inr (day_schedule st))))"

fun days_loop ::
  "window \<Rightarrow> (string \<times> plan_entry) list \<Rightarrow> subject list \<Rightarrow> int \<Rightarrow> nat list
     \<Rightarrow> (int \<times> block list) list \<Rightarrow> (error + (int \<times> block list) list) option" where
  "days_loop w plan subs today [] timetable = Some (Inr timetable)"
| "days_loop w plan subs today (day_offset # rest) timetable =
     (let day_date = today + int day_offset;
          active = active_subjects subs day_date
      in if active = [] then days_loop w plan subs today rest timetable
         else (case schedule_day w plan (map name subs) day_date day_offset active of
                 None \<Rightarrow> None
               | Some (Inl e) \<Rightarrow> Some (Inl e)
               | Some (Inr blocks) \<Rightarrow>
                   days_loop w plan subs today rest (AList.update day_date blocks timetable)))"

text \<open>
  The timetable as dates with their blocks, from the line \<^verbatim>\<open>timetable = {}\<close> to the
  end of the loop over the days.
\<close>

definition timetable_blocks ::
  "subject list \<Rightarrow> (string \<times> plan_entry) list \<Rightarrow> window \<Rightarrow> int
     \<Rightarrow> (error + (int \<times> block list) list) option" where
  "timetable_blocks subs plan w today =
     (let last_day = Max (set (map deadline subs));
          total_days = last_day - today + 1
      in days_loop w plan subs today [0..<nat total_days] [])"

text \<open>
  \<^verbatim>\<open>generate_timetable\<close> prints a warning when there are no subjects or no plan, and
  else the dates with the lines of their blocks; an exception ends it.
\<close>

datatype timetable_output =
    NoSubjectsToSchedule
  | TimetableRaised error
  | MultiDayTimetable "(int \<times> string list) list"

definition generate_timetable ::
  "subject list \<Rightarrow> (string \<times> plan_entry) list \<Rightarrow> window \<Rightarrow> int \<Rightarrow> timetable_output option" where
  "generate_timetable subs plan w today =
     (if subs = [] \<or> plan = [] then Some NoSubjectsToSchedule
      else (case timetable_blocks subs plan w today of
              None \<Rightarrow> None
            | Some (Inl e) \<Rightarrow> Some (TimetableRaised e)
            | Some (Inr timetable) \<Rightarrow>
                Some (MultiDayTimetable (map (\<lambda>(day, blocks). (day, map render_block blocks))
                        timetable))))"

text \<open>
  The \<^verbatim>\<open>timetable\<close> command of the main loop:
  \<^verbatim>\<open>plan = generate_plan()\<close>, then \<^verbatim>\<open>generate_timetable(subjects, plan)\<close> if there is a
  plan.
\<close>

definition timetable_command ::
  "(int \<Rightarrow> int \<Rightarrow> int) \<Rightarrow> window \<Rightarrow> int \<Rightarrow> subject list \<Rightarrow> timetable_output option" where
  "timetable_command predict_study_hours w today subs =
     (case generate_plan predict_study_hours today subs of
        None \<Rightarrow> Some NoSubjectsToSchedule
      | Some plan \<Rightarrow> generate_timetable subs plan w today)"


text \<open>
  The scenario of the specification: one subject, Math, due three days from today; the
  window from 9 to 12 with blocks of one hour, breaks of ten minutes and the fixed
  order; and the two blocks of a day.
\<close>

definition morning :: window where
  "morning = \<lparr>start_hour = 9, end_hour = 12, block_hours = 1, break_minutes = 10, order_pref = ''A''\<rparr>"

definition math_in_3 :: "int \<Rightarrow> subject list" where
  "math_in_3 today = [\<lparr>name = ''Math'', difficulty = 2, deadline = today + 3, marks = 50\<rparr>]"

definition two_math_blocks :: "int \<Rightarrow> block list" where
  "two_math_blocks d =
     [\<lparr>b_start = combine d 9, b_end = combine d 10, b_name = ''Math''\<rparr>,
      \<lparr>b_start = combine d 10 + td_minutes 10, b_end = combine d 11 + td_minutes 10, b_name = ''Math''\<rparr>]"


section \<open>Timetable over the arithmetic of the library\<close>

text \<open>
  \<^verbatim>\<open>generate_timetable\<close> once more, now with the errors and the roundings of the
  library. Two operations of the loop are floating-point operations: the conversion
  \<^verbatim>\<open>timedelta(hours=q)\<close>, which multiplies in double precision, rounds to microseconds
  and raises \<^verbatim>\<open>OverflowError\<close> beyond 999999999 days, and the subtraction
  \<^verbatim>\<open>hours_left[sub_name] -= ...\<close>, which rounds its result to a double and raises
  \<^verbatim>\<open>OverflowError\<close> for an \<^verbatim>\<open>int\<close> too large for a double. Both are parameters of the
  model, so that what is proved holds for the arithmetic the program runs on. A number
  (a Python \<^verbatim>\<open>int\<close> or a finite \<^verbatim>\<open>float\<close>) is the rational it denotes; comparisons and
  \<^verbatim>\<open>min\<close> are exact on these. \<^verbatim>\<open>float\<close> also reads \<^verbatim>\<open>inf\<close> and \<^verbatim>\<open>nan\<close>: with such
  a block length the conversion of line 316 raises on the first day that has an active
  subject, and no timetable is printed. The integer operations are written out:
  \<^verbatim>\<open>timedelta(minutes=m)\<close> is \<open>m * 60000000\<close> microseconds and raises
  \<^verbatim>\<open>OverflowError\<close> beyond 999999999 days, and \<^verbatim>\<open>datetime + timedelta\<close> raises
  \<^verbatim>\<open>OverflowError\<close> when the sum is before 0001-01-01 00:00:00 or after
  9999-12-31 23:59:59.999999. An exception ends \<^verbatim>\<open>generate_timetable\<close> without a
  timetable.
\<close>

record arithmetic =
  timedelta_hours :: "rat \<Rightarrow> error + int"
  subtract :: "rat \<Rightarrow> rat \<Rightarrow> error + rat"

definition MIN_DATETIME :: int where
  "MIN_DATETIME = 86400000000"

definition MAX_DATETIME :: int where
  "MAX_DATETIME = 3652059 * 86400000000 + 86399999999"

definition timedelta_in_range :: "int \<Rightarrow> bool" where
  "timedelta_in_range us =
     (- 999999999 \<le> us div 86400000000 \<and> us div 86400000000 \<le> 999999999)"

definition timedelta_minutes :: "int \<Rightarrow> error + int" where
  "timedelta_minutes m =
     (if timedelta_in_range (td_minutes m) then Inr (td_minutes m) else Inl OverflowError)"

definition datetime_add :: "int \<Rightarrow> int \<Rightarrow> error + int" where
  "datetime_add t delta =
     (if MIN_DATETIME \<le> t + delta \<and> t + delta \<le> MAX_DATETIME then Inr (t + delta)
      else Inl OverflowError)"

text \<open>
  What the proofs below use of the conversion: on numbers that are not negative it
  keeps the order and gives no negative length. \<^verbatim>\<open>timedelta(hours=q)\<close> has this
  property: for \<open>0 \<le> q\<close> it rounds \<open>\<lfloor>q\<rfloor> * 3600000000 + fl (3600000000 * (q - \<lfloor>q\<rfloor>))\<close> to the
  nearest integer, where \<open>fl\<close> rounds to the nearest double, and both roundings keep
  the order.
\<close>

definition rounds_in_order :: "arithmetic \<Rightarrow> bool" where
  "rounds_in_order ar =
     (\<forall>p q a b. 0 \<le> p \<and> p \<le> q \<and> timedelta_hours ar p = Inr a \<and> timedelta_hours ar q = Inr b
        \<longrightarrow> 0 \<le> a \<and> a \<le> b)"

text \<open>
  The arithmetic without rounding errors other than the rounding to microseconds. On
  the numbers of the examples below the library computes the same lengths and the same
  hours left: every difference there is a double, and no product is as near to half a
  microsecond as the rounding error of a double.
\<close>

definition exact_arithmetic :: arithmetic where
  "exact_arithmetic =
     \<lparr>timedelta_hours = (\<lambda>q. if timedelta_in_range (td_hours q) then Inr (td_hours q)
                              else Inl OverflowError),
      subtract = (\<lambda>x y. Inr (x - y))\<rparr>"

text \<open>
  \<^verbatim>\<open>current_time + timedelta(hours=block_hours)\<close>, the left side of the comparisons
  of lines 316 and 324.
\<close>

definition block_limit :: "arithmetic \<Rightarrow> rat \<Rightarrow> int \<Rightarrow> error + int" where
  "block_limit ar bh t =
     (case timedelta_hours ar bh of
        Inl e \<Rightarrow> Inl e
      | Inr block_length \<Rightarrow> datetime_add t block_length)"

text \<open>
  Lines 320 to 324 for a subject with \<open>h\<close> hours left: the state after the block, and
  the time the \<^verbatim>\<open>if\<close> of line 324 compares with \<^verbatim>\<open>end_time\<close>.
\<close>

definition allocate_block ::
  "arithmetic \<Rightarrow> rat \<Rightarrow> int \<Rightarrow> string \<Rightarrow> rat \<Rightarrow> day_state \<Rightarrow> error + day_state \<times> int" where
  "allocate_block ar bh brk sub_name h st =
     (case timedelta_hours ar (min bh h) of
        Inl e \<Rightarrow> Inl e
      | Inr len \<Rightarrow>
     (case datetime_add (current_time st) len of
        Inl e \<Rightarrow> Inl e
      | Inr block_end \<Rightarrow>
     (case subtract ar h (min bh h) of
        Inl e \<Rightarrow> Inl e
      | Inr h' \<Rightarrow>
     (case timedelta_minutes brk of
        Inl e \<Rightarrow> Inl e
      | Inr pause \<Rightarrow>
     (case datetime_add block_end pause of
        Inl e \<Rightarrow> Inl e
      | Inr next_time \<Rightarrow>
     (case block_limit ar bh next_time of
        Inl e \<Rightarrow> Inl e
      | Inr limit \<Rightarrow>
          Inr (\<lparr>hours_left = AList.update sub_name h' (hours_left st),
                current_time = next_time,
                day_schedule = day_schedule st
                  @ [\<lparr>b_start = current_time st, b_end = block_end, b_name = sub_name\<rparr>]\<rparr>,
               limit)))))))"

fun for_pass_with ::
  "arithmetic \<Rightarrow> rat \<Rightarrow> int \<Rightarrow> int \<Rightarrow> string list \<Rightarrow> day_state \<Rightarrow> error + day_state" where
  "for_pass_with ar bh brk end_time [] st = Inr st"
| "for_pass_with ar bh brk end_time (sub_name # rest) st =
     (case map_of (hours_left st) sub_name of
        None \<Rightarrow> Inl KeyError
      | Some h \<Rightarrow>
          if h \<le> 0 then for_pass_with ar bh brk end_time rest st
          else (case allocate_block ar bh brk sub_name h st of
                  Inl e \<Rightarrow> Inl e
                | Inr (st', limit) \<Rightarrow>
                    if limit > end_time then Inr st'
                    else for_pass_with ar bh brk end_time rest st'))"

text \<open>
  The \<^verbatim>\<open>while\<close> loop of a day. It need not end: when the difference of line 322
  rounds to the number it was taken from, the hours left never shrink.
\<close>

partial_function (option) allocate_with ::
  "arithmetic \<Rightarrow> rat \<Rightarrow> int \<Rightarrow> int \<Rightarrow> string list \<Rightarrow> day_state \<Rightarrow> (error + day_state) option" where
  "allocate_with ar bh brk end_time day_order st =
     (case block_limit ar bh (current_time st) of
        Inl e \<Rightarrow> Some (Inl e)
      | Inr limit \<Rightarrow>
          if limit \<le> end_time \<and> any_hours (hours_left st)
          then (case for_pass_with ar bh brk end_time day_order st of
                  Inl e \<Rightarrow> Some (Inl e)
                | Inr st' \<Rightarrow>
                    if all_done (hours_left st') then Some (Inr st')
                    else allocate_with ar bh brk end_time day_order st')
          else Some (Inr st))"

declare allocate_with.simps [code]

definition schedule_day_with ::
  "arithmetic \<Rightarrow> window \<Rightarrow> (string \<times> plan_entry) list \<Rightarrow> string list \<Rightarrow> int \<Rightarrow> nat
     \<Rightarrow> subject list \<Rightarrow> (error + block list) option" where
  "schedule_day_with ar w plan fixed_order day_date day_offset active =
     (let day_order = day_order_of (order_pref w) fixed_order active day_offset
      in case init_hours plan active [] of
           Inl e \<Rightarrow> Some (Inl e)
         | Inr hl \<Rightarrow>
             if \<not> valid_hour (start_hour w) \<or> \<not> valid_hour (end_hour w) then Some (Inl ValueError)
             else (case allocate_with ar (block_hours w) (break_minutes w)
                          (combine day_date (end_hour w)) day_order
                          \<lparr>hours_left = hl, current_time = combine day_date (start_hour w),
                           day_schedule = []\<rparr> of
                     None \<Rightarrow> None
                   | Some (Inl e) \<Rightarrow> Some (Inl e)
                   | Some (Inr st) \<Rightarrow> Some (Inr (day_schedule st))))"

fun days_loop_with ::
  "arithmetic \<Rightarrow> window \<Rightarrow> (string \<times> plan_entry) list \<Rightarrow> subject list \<Rightarrow> int \<Rightarrow> nat list
     \<Rightarrow> (int \<times> block list) list \<Rightarrow> (error + (int \<times> block list) list) option" where
  "days_loop_with ar w plan subs today [] timetable = Some (Inr timetable)"
| "days_loop_with ar w plan subs today (day_offset # rest) timetable =
     (let day_date = today + int day_offset;
          active = active_subjects subs day_date
      in if active = [] then days_loop_with ar w plan subs today rest timetable
         else (case schedule_day_with ar w plan (map name subs) day_date day_offset active of
                 None \<Rightarrow> None
               | Some (Inl e) \<Rightarrow> Some (Inl e)
               | Some (Inr blocks) \<Rightarrow>
                   days_loop_with ar w plan subs today rest
                     (AList.update day_date blocks timetable)))"

definition timetable_blocks_with ::
  "arithmetic \<Rightarrow> subject list \<Rightarrow> (string \<times> plan_entry) list \<Rightarrow> window \<Rightarrow> int
     \<Rightarrow> (error + (int \<times> block list) list) option" where
  "timetable_blocks_with ar subs plan w today =
     (let last_day = Max (set (map deadline subs));
          total_days = last_day - today + 1
      in days_loop_with ar w plan subs today [0..<nat total_days] [])"

definition generate_timetable_with ::
  "arithmetic \<Rightarrow> subject list \<Rightarrow> (string \<times> plan_entry) list \<Rightarrow> window \<Rightarrow> int
     \<Rightarrow> timetable_output option" where
  "generate_timetable_with ar subs plan w today =
     (if subs = [] \<or> plan = [] then Some NoSubjectsToSchedule
      else (case timetable_blocks_with ar subs plan w today of
              None \<Rightarrow> None
            | Some (Inl e) \<Rightarrow> Some (TimetableRaised e)
            | Some (Inr timetable) \<Rightarrow>
                Some (MultiDayTimetable (map (\<lambda>(day, blocks). (day, map render_block blocks))
                        timetable))))"

definition timetable_command_with ::
  "arithmetic \<Rightarrow> (int \<Rightarrow> int \<Rightarrow> int) \<Rightarrow> window \<Rightarrow> int \<Rightarrow> subject list
     \<Rightarrow> timetable_output option" where
  "timetable_command_with ar predict_study_hours w today subs =
     (case generate_plan predict_study_hours today subs of
        None \<Rightarrow> Some NoSubjectsToSchedule
      | Some plan \<Rightarrow> generate_timetable_with ar subs plan w today)"

text \<open>
  Consecutive blocks are at least \<open>pause\<close> apart, and every block lies in the window
  from \<open>t0\<close> to \<open>t1\<close> and does not end before it starts.
\<close>

definition blocks_apart :: "int \<Rightarrow> int \<Rightarrow> int \<Rightarrow> block list \<Rightarrow> bool" where
  "blocks_apart pause t0 t1 bs =
     (sorted_wrt (\<lambda>a b. b_end a + pause \<le> b_start b) bs
      \<and> list_all (\<lambda>b. t0 \<le> b_start b \<and> b_start b \<le> b_end b \<and> b_end b \<le> t1) bs)"

text \<open>
  What the allocation loop keeps true: the blocks so far are apart and in the window,
  and the current time is at least a break after each of them.
\<close>

definition day_invariant :: "int \<Rightarrow> int \<Rightarrow> int \<Rightarrow> day_state \<Rightarrow> bool" where
  "day_invariant pause t0 t1 st =
     (blocks_apart pause t0 t1 (day_schedule st)
      \<and> list_all (\<lambda>b. b_end b + pause \<le> current_time st) (day_schedule st)
      \<and> t0 \<le> current_time st)"

text \<open>
  Examples. Two subjects of low difficulty and four blocks, of which the last two
  start at 11:00; the window of the scenario with no break and blocks of
  \<open>1 - 1 / 2 ^ 40\<close> hours (the double nearest to 0.9999999999990905); a window that
  closes before it opens; and a window with a negative block length and breaks of two
  hours.
\<close>

definition two_easy :: "subject list" where
  "two_easy =
     [\<lparr>name = ''Math'', difficulty = 1, deadline = 739047, marks = 90\<rparr>,
      \<lparr>name = ''Physics'', difficulty = 1, deadline = 739048, marks = 80\<rparr>]"

definition two_easy_day :: "block list" where
  "two_easy_day =
     [\<lparr>b_start = combine 739047 9, b_end = combine 739047 10, b_name = ''Math''\<rparr>,
      \<lparr>b_start = combine 739047 10, b_end = combine 739047 11, b_name = ''Physics''\<rparr>,
      \<lparr>b_start = combine 739047 11, b_end = combine 739047 11, b_name = ''Math''\<rparr>,
      \<lparr>b_start = combine 739047 11, b_end = combine 739047 11, b_name = ''Physics''\<rparr>]"

definition short_of_an_hour :: window where
  "short_of_an_hour =
     \<lparr>start_hour = 9, end_hour = 12, block_hours = 1 - 1 / 2 ^ 40, break_minutes = 0,
      order_pref = ''A''\<rparr>"

definition closed_window :: window where
  "closed_window =
     \<lparr>start_hour = 12, end_hour = 9, block_hours = 1, break_minutes = 10, order_pref = ''A''\<rparr>"

definition backwards_window :: window where
  "backwards_window =
     \<lparr>start_hour = 9, end_hour = 12, block_hours = -1, break_minutes = 120, order_pref = ''A''\<rparr>"


section \<open>Properties of the clash resolver\<close>

lemma next_free_Inr:
  "next_free used d = Inr d' \<Longrightarrow> d \<le> d' \<and> d' \<notin> used"
proof (induction used d rule: next_free.induct)
  case (1 used d)
  show ?case
  proof (cases "d \<in> used")
    case True
    with "1.prems" have nm: "\<not> MAXORDINAL \<le> d" and rec: "next_free used (d + 1) = Inr d'"
      by (auto simp: next_free.simps [of used d] split: if_splits)
    from "1.IH" [OF True nm rec] show ?thesis by simp
  next
    case False
    with "1.prems" show ?thesis by (simp add: next_free.simps [of used d])
  qed
qed

lemma next_free_unused: "d \<notin> used \<Longrightarrow> next_free used d = Inr d"
  by (simp add: next_free.simps [of used d])

lemma next_free_returns:
  "finite used \<Longrightarrow> d + int (card {x \<in> used. d \<le> x}) \<le> MAXORDINAL \<Longrightarrow>
     \<exists>d'. next_free used d = Inr d'"
proof (induction used d rule: next_free.induct)
  case (1 used d)
  show ?case
  proof (cases "d \<in> used")
    case False
    then show ?thesis by (simp add: next_free_unused)
  next
    case True
    have fin: "finite {x \<in> used. d \<le> x}" using "1.prems"(1) by simp
    have split: "{x \<in> used. d \<le> x} = insert d {x \<in> used. d + 1 \<le> x}"
      using True by auto
    have "d \<notin> {x \<in> used. d + 1 \<le> x}" by simp
    moreover have "finite {x \<in> used. d + 1 \<le> x}" using "1.prems"(1) by simp
    ultimately have c: "card {x \<in> used. d \<le> x} = Suc (card {x \<in> used. d + 1 \<le> x})"
      unfolding split by (rule card_insert_disjoint [rotated])
    with "1.prems"(2) have nm: "\<not> MAXORDINAL \<le> d"
      and room: "d + 1 + int (card {x \<in> used. d + 1 \<le> x}) \<le> MAXORDINAL"
      by simp_all
    from "1.IH" [OF True nm "1.prems"(1) room] obtain d' where "next_free used (d + 1) = Inr d'" ..
    with True nm show ?thesis by (simp add: next_free.simps [of used d])
  qed
qed

lemma rearrange_loop_props:
  assumes "rearrange_loop is used subs = Inr subs'" "distinct is" "\<forall>i\<in>set is. i < length subs"
  shows "length subs' = length subs
    \<and> (\<forall>j. j \<notin> set is \<longrightarrow> subs' ! j = subs ! j)
    \<and> (\<forall>i\<in>set is. deadline (subs ! i) \<le> deadline (subs' ! i) \<and> deadline (subs' ! i) \<notin> used)
    \<and> inj_on (\<lambda>i. deadline (subs' ! i)) (set is)"
  using assms
proof (induction "is" arbitrary: used subs)
  case Nil
  then show ?case by simp
next
  case (Cons i "is")
  from Cons.prems(1) obtain d where nf: "next_free used (deadline (subs ! i)) = Inr d"
    and rec: "rearrange_loop is (insert d used) (subs[i := (subs ! i)\<lparr>deadline := d\<rparr>]) = Inr subs'"
    by (auto split: sum.splits)
  let ?subs1 = "subs[i := (subs ! i)\<lparr>deadline := d\<rparr>]"
  from Cons.prems have di: "distinct is" and ini: "i \<notin> set is" and ilt: "i < length subs"
    and bnd: "\<forall>k\<in>set is. k < length ?subs1" by auto
  from Cons.IH [OF rec di bnd]
  have len: "length subs' = length subs"
    and keep: "\<forall>j. j \<notin> set is \<longrightarrow> subs' ! j = ?subs1 ! j"
    and upd: "\<forall>k\<in>set is. deadline (?subs1 ! k) \<le> deadline (subs' ! k) \<and> deadline (subs' ! k) \<notin> insert d used"
    and inj: "inj_on (\<lambda>k. deadline (subs' ! k)) (set is)"
    by simp_all
  from next_free_Inr [OF nf] have dge: "deadline (subs ! i) \<le> d" and dfresh: "d \<notin> used" by simp_all
  from keep ini ilt have ati: "subs' ! i = (subs ! i)\<lparr>deadline := d\<rparr>" by simp
  have others: "\<forall>k\<in>set is. ?subs1 ! k = subs ! k" using ini by (metis nth_list_update_neq)
  have 1: "\<forall>j. j \<notin> set (i # is) \<longrightarrow> subs' ! j = subs ! j" using keep by simp
  have 2: "\<forall>k\<in>set (i # is). deadline (subs ! k) \<le> deadline (subs' ! k) \<and> deadline (subs' ! k) \<notin> used"
    using upd others ati dge dfresh by auto
  have 3: "inj_on (\<lambda>k. deadline (subs' ! k)) (set (i # is))"
    using inj upd ati by (auto simp: inj_on_def)
  from len 1 2 3 show ?case by blast
qed

lemma rearrange_loop_frame:
  "\<forall>i\<in>set is. i < length subs \<Longrightarrow>
   length (final_subjects (rearrange_loop is used subs)) = length subs
   \<and> map name (final_subjects (rearrange_loop is used subs)) = map name subs
   \<and> map difficulty (final_subjects (rearrange_loop is used subs)) = map difficulty subs
   \<and> map marks (final_subjects (rearrange_loop is used subs)) = map marks subs"
proof (induction "is" arbitrary: used subs)
  case Nil
  then show ?case by (simp add: final_subjects_def)
next
  case (Cons i "is")
  show ?case
  proof (cases "next_free used (deadline (subs ! i))")
    case (Inl e)
    then show ?thesis by (simp add: final_subjects_def)
  next
    case (Inr d)
    let ?subs1 = "subs[i := (subs ! i)\<lparr>deadline := d\<rparr>]"
    from Cons.prems have "\<forall>k\<in>set is. k < length ?subs1" and ilt: "i < length subs" by simp_all
    from Cons.IH [OF this(1), of "insert d used"] Inr ilt show ?thesis
      by (simp add: map_update list_update_same_conv)
  qed
qed

lemma rearrange_loop_noop:
  assumes "distinct is" "\<forall>i\<in>set is. i < length subs"
    "inj_on (\<lambda>i. deadline (subs ! i)) (set is)" "\<forall>i\<in>set is. deadline (subs ! i) \<notin> used"
  shows "rearrange_loop is used subs = Inr subs"
  using assms
proof (induction "is" arbitrary: used)
  case Nil
  then show ?case by simp
next
  case (Cons i "is")
  from Cons.prems have nf: "next_free used (deadline (subs ! i)) = Inr (deadline (subs ! i))"
    by (simp add: next_free_unused)
  have same: "subs[i := (subs ! i)\<lparr>deadline := deadline (subs ! i)\<rparr>] = subs"
    by simp
  have "rearrange_loop is (insert (deadline (subs ! i)) used) subs = Inr subs"
  proof (rule Cons.IH)
    show "distinct is" using Cons.prems by simp
    show "\<forall>k\<in>set is. k < length subs" using Cons.prems by simp
    show "inj_on (\<lambda>k. deadline (subs ! k)) (set is)" using Cons.prems by (simp add: inj_on_def)
    show "\<forall>k\<in>set is. deadline (subs ! k) \<notin> insert (deadline (subs ! i)) used"
      using Cons.prems by (auto simp: inj_on_def)
  qed
  with nf same show ?case by simp
qed

lemma rearrange_loop_returns:
  assumes "distinct is" "\<forall>i\<in>set is. i < length subs" "finite used"
    "\<forall>i\<in>set is. deadline (subs ! i) + int (card used) + int (length is) \<le> MAXORDINAL + 1"
  shows "\<exists>subs'. rearrange_loop is used subs = Inr subs'"
  using assms
proof (induction "is" arbitrary: used subs)
  case Nil
  then show ?case by simp
next
  case (Cons i "is")
  have "card {x \<in> used. deadline (subs ! i) \<le> x} \<le> card used"
    using Cons.prems(3) by (simp add: card_mono)
  with Cons.prems(4) have "deadline (subs ! i) + int (card {x \<in> used. deadline (subs ! i) \<le> x}) \<le> MAXORDINAL"
    by simp
  from next_free_returns [OF Cons.prems(3) this] obtain d
    where nf: "next_free used (deadline (subs ! i)) = Inr d" ..
  let ?subs1 = "subs[i := (subs ! i)\<lparr>deadline := d\<rparr>]"
  have others: "\<forall>k\<in>set is. ?subs1 ! k = subs ! k"
    using Cons.prems(1) by (metis distinct.simps(2) nth_list_update_neq)
  have "card (insert d used) \<le> Suc (card used)"
    using Cons.prems(3) by (simp add: card_insert_if)
  with Cons.prems(4) others
  have room: "\<forall>k\<in>set is. deadline (?subs1 ! k) + int (card (insert d used)) + int (length is) \<le> MAXORDINAL + 1"
    by fastforce
  have "\<exists>subs'. rearrange_loop is (insert d used) ?subs1 = Inr subs'"
  proof (rule Cons.IH)
    show "distinct is" using Cons.prems(1) by simp
    show "\<forall>k\<in>set is. k < length ?subs1" using Cons.prems(2) by simp
    show "finite (insert d used)" using Cons.prems(3) by simp
    show "\<forall>k\<in>set is. deadline (?subs1 ! k) + int (card (insert d used)) + int (length is) \<le> MAXORDINAL + 1"
      by (rule room)
  qed
  with nf show ?case by simp
qed

lemma distinct_map_nth:
  "distinct (map f xs) \<longleftrightarrow> inj_on (\<lambda>i. f (xs ! i)) {0..<length xs}"
proof
  assume d: "distinct (map f xs)"
  show "inj_on (\<lambda>i. f (xs ! i)) {0..<length xs}"
  proof (rule inj_onI)
    fix i j assume "i \<in> {0..<length xs}" "j \<in> {0..<length xs}" "f (xs ! i) = f (xs ! j)"
    then have "i < length (map f xs)" "j < length (map f xs)" "map f xs ! i = map f xs ! j"
      by simp_all
    with d show "i = j" by (simp only: nth_eq_iff_index_eq)
  qed
next
  assume inj: "inj_on (\<lambda>i. f (xs ! i)) {0..<length xs}"
  show "distinct (map f xs)"
  proof (simp only: distinct_conv_nth, intro allI impI)
    fix i j assume "i < length (map f xs)" "j < length (map f xs)" "i \<noteq> j"
    then show "map f xs ! i \<noteq> map f xs ! j"
      using inj by (auto simp: inj_on_def)
  qed
qed

lemma sorted_positions:
  "distinct (sort_key f [0..<n]) \<and> set (sort_key f [0..<n]) = {0..<n} \<and> length (sort_key f [0..<n]) = n"
  by simp

lemma rearrange_schedule_returns:
  assumes "\<forall>s\<in>set subs. deadline s + int (length subs) \<le> MAXORDINAL + 1"
  shows "\<exists>subs'. rearrange_schedule subs = Inr subs'"
  unfolding rearrange_schedule_def
proof (rule rearrange_loop_returns)
  let ?is = "sort_key (\<lambda>i. deadline (subs ! i)) [0..<length subs]"
  show "distinct ?is" by simp
  show "\<forall>i\<in>set ?is. i < length subs" by simp
  show "finite ({} :: int set)" by simp
  show "\<forall>i\<in>set ?is. deadline (subs ! i) + int (card ({} :: int set)) + int (length ?is) \<le> MAXORDINAL + 1"
    using assms by simp
qed

lemma rearrange_schedule_props:
  assumes "rearrange_schedule subs = Inr subs'"
  shows "length subs' = length subs" "distinct (map deadline subs')"
    "\<forall>i<length subs. deadline (subs ! i) \<le> deadline (subs' ! i)"
proof -
  let ?is = "sort_key (\<lambda>i. deadline (subs ! i)) [0..<length subs]"
  have "rearrange_loop ?is {} subs = Inr subs'"
    using assms by (simp add: rearrange_schedule_def)
  from rearrange_loop_props [OF this]
  have len: "length subs' = length subs"
    and mono: "\<forall>i\<in>set ?is. deadline (subs ! i) \<le> deadline (subs' ! i)"
    and inj: "inj_on (\<lambda>i. deadline (subs' ! i)) (set ?is)"
    by simp_all
  show "length subs' = length subs" by (rule len)
  show "\<forall>i<length subs. deadline (subs ! i) \<le> deadline (subs' ! i)"
    using mono by simp
  have "inj_on (\<lambda>i. deadline (subs' ! i)) {0..<length subs'}"
    using inj len by simp
  then show "distinct (map deadline subs')"
    by (simp add: distinct_map_nth)
qed

lemma rearrange_schedule_noop:
  assumes "distinct (map deadline subs)"
  shows "rearrange_schedule subs = Inr subs"
  unfolding rearrange_schedule_def
proof (rule rearrange_loop_noop)
  let ?is = "sort_key (\<lambda>i. deadline (subs ! i)) [0..<length subs]"
  show "distinct ?is" by simp
  show "\<forall>i\<in>set ?is. i < length subs" by simp
  show "inj_on (\<lambda>i. deadline (subs ! i)) (set ?is)"
    using assms by (simp add: distinct_map_nth)
  show "\<forall>i\<in>set ?is. deadline (subs ! i) \<notin> {}" by simp
qed


lemma rearrange_schedule_keeps_fields:
  "length (final_subjects (rearrange_schedule subs)) = length subs
   \<and> map name (final_subjects (rearrange_schedule subs)) = map name subs
   \<and> map difficulty (final_subjects (rearrange_schedule subs)) = map difficulty subs
   \<and> map marks (final_subjects (rearrange_schedule subs)) = map marks subs"
  unfolding rearrange_schedule_def
  by (rule rearrange_loop_frame) simp

lemma detect_clashes_iff: "detect_clashes subs \<longleftrightarrow> \<not> distinct (map deadline subs)"
  unfolding detect_clashes_def Let_def by (metis card_distinct distinct_card)

lemma two_clashing_rearranged: "rearrange_schedule two_clashing = Inr two_resolved"
  by (simp add: rearrange_schedule_def two_clashing_def two_resolved_def next_free.simps
      MAXORDINAL_def)

text \<open>
  Claim C5. Whenever \<^verbatim>\<open>rearrange_schedule\<close> returns, the list has its length, all
  deadlines are pairwise distinct, and no subject's deadline is earlier than before the
  call. This holds for every list, so in particular for the lists with two or more
  identical deadlines. The call returns (it does not stop with \<^verbatim>\<open>OverflowError\<close> at
  \<^verbatim>\<open>date.max\<close>) whenever every deadline leaves room for one day per subject below
  \<^verbatim>\<open>date.max\<close>.
\<close>

theorem rearrange_schedule_resolves:
  "(rearrange_schedule subs = Inr subs' \<longrightarrow>
      length subs' = length subs \<and> distinct (map deadline subs')
      \<and> (\<forall>i<length subs. deadline (subs ! i) \<le> deadline (subs' ! i)))
   \<and> ((\<forall>s\<in>set subs. deadline s + int (length subs) \<le> MAXORDINAL + 1) \<longrightarrow>
      (\<exists>r. rearrange_schedule subs = Inr r))"
  using rearrange_schedule_props [of subs subs'] rearrange_schedule_returns [of subs]
  by blast

theorem rearrange_schedule_resolves_witness:
  "detect_clashes two_clashing
   \<and> rearrange_schedule two_clashing = Inr two_resolved
   \<and> length two_resolved = length two_clashing
   \<and> distinct (map deadline two_resolved)
   \<and> deadline (two_clashing ! 0) \<le> deadline (two_resolved ! 0)
   \<and> deadline (two_clashing ! 1) \<le> deadline (two_resolved ! 1)
   \<and> deadline (two_clashing ! 0) + int (length two_clashing) \<le> MAXORDINAL + 1
   \<and> deadline (two_clashing ! 1) + int (length two_clashing) \<le> MAXORDINAL + 1"
proof -
  have clash: "detect_clashes two_clashing"
    by (simp add: detect_clashes_iff two_clashing_def)
  have room: "deadline (two_clashing ! 0) + int (length two_clashing) \<le> MAXORDINAL + 1"
    "deadline (two_clashing ! 1) + int (length two_clashing) \<le> MAXORDINAL + 1"
    by (simp_all add: two_clashing_def MAXORDINAL_def)
  have "length two_resolved = length two_clashing \<and> distinct (map deadline two_resolved)
    \<and> (\<forall>i<length two_clashing. deadline (two_clashing ! i) \<le> deadline (two_resolved ! i))"
    using rearrange_schedule_resolves [of two_clashing two_resolved] two_clashing_rearranged
    by blast
  moreover have "length two_clashing = 2"
    by (simp add: two_clashing_def)
  ultimately show ?thesis
    using clash room two_clashing_rearranged by simp
qed

text \<open>
  Claim C6. \<^verbatim>\<open>rearrange_schedule\<close> is idempotent: run on the list a first run
  returned, it returns that list unchanged.
\<close>

theorem rearrange_schedule_idempotent:
  "rearrange_schedule subs = Inr subs' \<Longrightarrow> rearrange_schedule subs' = Inr subs'"
  by (rule rearrange_schedule_noop) (rule rearrange_schedule_props(2))

theorem rearrange_schedule_idempotent_witness:
  "rearrange_schedule two_clashing = Inr two_resolved
   \<and> rearrange_schedule two_resolved = Inr two_resolved"
  using rearrange_schedule_idempotent [OF two_clashing_rearranged] two_clashing_rearranged
  by simp

text \<open>
  Claim C10. \<^verbatim>\<open>rearrange_schedule\<close> writes the \<^verbatim>\<open>deadline\<close> key only: whether it
  returns or raises, the list keeps its length, and position by position the names, the
  difficulties and the marks are the ones it had.
\<close>

theorem rearrange_schedule_frame:
  "length (final_subjects (rearrange_schedule subs)) = length subs
   \<and> map name (final_subjects (rearrange_schedule subs)) = map name subs
   \<and> map difficulty (final_subjects (rearrange_schedule subs)) = map difficulty subs
   \<and> map marks (final_subjects (rearrange_schedule subs)) = map marks subs"
  by (rule rearrange_schedule_keeps_fields)

theorem rearrange_schedule_frame_witness:
  "final_subjects (rearrange_schedule two_clashing) = two_resolved
   \<and> length two_resolved = length two_clashing
   \<and> map name two_resolved = map name two_clashing
   \<and> map difficulty two_resolved = map difficulty two_clashing
   \<and> map marks two_resolved = map marks two_clashing"
  using rearrange_schedule_frame [of two_clashing] two_clashing_rearranged
  by (simp add: final_subjects_def)

section \<open>Properties of the plan builder\<close>

lemma set_update_subset: "set (AList.update k v al) \<subseteq> insert (k, v) (set al)"
  by (induction al) auto


lemma plan_fold_keys:
  "fst ` set (fold (\<lambda>s schedule. AList.update (name s) (g s) schedule) subs acc)
     = fst ` set acc \<union> name ` set subs"
  by (induction subs arbitrary: acc) (auto simp: dom_update)

lemma generate_plan_Some:
  "subs \<noteq> [] \<Longrightarrow> generate_plan p today subs
     = Some (fold (\<lambda>s schedule. AList.update (name s) (plan_entry_of p today s) schedule) subs [])"
  by (simp add: generate_plan_def)


lemma generate_plan_keys:
  assumes "generate_plan p today subs = Some plan"
  shows "fst ` set plan = name ` set subs"
  using assms plan_fold_keys [of "plan_entry_of p today" subs "[]"]
  by (auto simp: generate_plan_def split: if_splits)






section \<open>Properties of the store commands\<close>

lemma reschedule_loop_absent:
  "n \<notin> name ` set subs \<Longrightarrow> reschedule_loop n d subs = (False, subs)"
  by (induction subs) auto

lemma reschedule_loop_found:
  "fst (reschedule_loop n d subs) \<longleftrightarrow> n \<in> name ` set subs"
  by (induction subs) (auto split: prod.splits)

lemma reschedule_loop_not_found:
  "\<not> fst (reschedule_loop n d subs) \<Longrightarrow> snd (reschedule_loop n d subs) = subs"
  by (induction subs) (auto split: prod.splits if_splits)

lemma add_failure_cases:
  assumes "length (py_split cmd) \<noteq> 6 \<or> map_of dm (py_lower (py_split cmd ! 3)) = None
     \<or> parse_date (py_split cmd ! 4) = None \<or> py_int (py_split cmd ! 5) = None"
  shows "snd (add_subject_command dm cmd choice st) = st
     \<and> fst (add_subject_command dm cmd choice st)
         \<in> {[InvalidFormatAdd], [InvalidDiff], [InvalidDate], [MarksNotInteger]}"
  using assms
  by (auto simp: add_subject_command_def Let_def split: option.splits)

lemma add_not_added:
  assumes "hd (fst (add_subject_command dm cmd choice st)) \<noteq> Added"
  shows "snd (add_subject_command dm cmd choice st) = st"
  using assms
  by (auto simp: add_subject_command_def Let_def split: option.splits prod.splits if_splits)

lemma reschedule_failure_cases:
  assumes "length (py_split cmd) \<noteq> 3 \<or> parse_date (py_split cmd ! 2) = None
     \<or> py_split cmd ! 1 \<notin> name ` set (subjects st)"
  shows "snd (reschedule_subject cmd st) = st
     \<and> fst (reschedule_subject cmd st) \<in> {[InvalidFormatRes], [InvalidDate], [NotFound]}"
  using assms
  by (auto simp: reschedule_subject_def Let_def reschedule_loop_absent split: option.splits prod.splits)

lemma reschedule_loop_False:
  "reschedule_loop n d subs = (False, subs') \<Longrightarrow> subs' = subs"
  using reschedule_loop_not_found [of n d subs] by simp

lemma reschedule_not_rescheduled:
  assumes "fst (reschedule_subject cmd st) \<noteq> [Rescheduled]"
  shows "snd (reschedule_subject cmd st) = st"
proof (cases "length (py_split cmd) \<noteq> 3 \<or> parse_date (py_split cmd ! 2) = None")
  case True
  then show ?thesis
    by (auto simp: reschedule_subject_def Let_def)
next
  case False
  then obtain new_date where len: "length (py_split cmd) = 3"
    and pd: "parse_date (py_split cmd ! 2) = Some new_date" by auto
  obtain found subs' where loop:
    "reschedule_loop (py_split cmd ! 1) new_date (subjects st) = (found, subs')"
    by (cases "reschedule_loop (py_split cmd ! 1) new_date (subjects st)")
  from assms len pd loop have "\<not> found"
    by (auto simp: reschedule_subject_def Let_def)
  with loop have "subs' = subjects st"
    by (auto dest: reschedule_loop_False)
  with len pd loop \<open>\<not> found\<close> show ?thesis
    by (simp add: reschedule_subject_def Let_def)
qed

lemma handle_clashes_marks:
  "map marks (subjects (snd (handle_clashes choice st))) = map marks (subjects st)"
  using rearrange_schedule_keeps_fields [of "subjects st"]
  by (auto simp: handle_clashes_def save_subjects_def final_subjects_def split: sum.splits)

lemma split_add_150:
  "py_split ''add subject Math low 2025-01-01 150''
     = [''add'', ''subject'', ''Math'', ''low'', ''2025-01-01'', ''150'']"
  by (simp add: py_split_def is_space_def)

lemma parse_2025_01_01: "parse_date ''2025-01-01'' = Some 739252"
  by code_simp

lemma py_int_150: "py_int ''150'' = Some 150"
  by code_simp

lemma lower_low: "map_of DEFAULT_DIFF (py_lower ''low'') = Some 1"
  by code_simp

lemma split_bad_marks:
  "py_split ''add subject Math low 2025-01-01 fifty''
     = [''add'', ''subject'', ''Math'', ''low'', ''2025-01-01'', ''fifty'']"
  by (simp add: py_split_def is_space_def)

lemma py_int_fifty: "py_int ''fifty'' = None"
  by code_simp

lemma split_reschedule_chem:
  "py_split ''reschedule Chem 2024-06-12'' = [''reschedule'', ''Chem'', ''2024-06-12'']"
  by (simp add: py_split_def is_space_def)

lemma parse_2024_06_12: "parse_date ''2024-06-12'' = Some 739049"
  by code_simp

lemma add_150_result:
  "add_subject_command DEFAULT_DIFF ''add subject Math low 2025-01-01 150'' [] empty_store
     = ([Added], \<lparr>subjects = [marks_150], saved = [marks_150]\<rparr>)"
  by (simp add: add_subject_command_def split_add_150 parse_2025_01_01 py_int_150 lower_low
      Let_def empty_store_def save_subjects_def detect_clashes_iff marks_150_def)

text \<open>
  Claim C8, as stated: every subject that \<^verbatim>\<open>add_subject_command\<close> appends has marks
  between 0 and 100. The command \<^verbatim>\<open>add subject Math low 2025-01-01 150\<close> on the empty
  store succeeds and appends a subject with marks 150.
\<close>

theorem add_marks_out_of_range:
  "add_subject_command DEFAULT_DIFF ''add subject Math low 2025-01-01 150'' [] empty_store
     = ([Added], \<lparr>subjects = [marks_150], saved = [marks_150]\<rparr>)
   \<and> \<not> (0 \<le> marks marks_150 \<and> marks marks_150 \<le> 100)"
  using add_150_result by (simp add: marks_150_def)

text \<open>
  Claim C8, amended. When \<^verbatim>\<open>add_subject_command\<close> succeeds (six words, a known
  difficulty, a date and an integer), the marks of the subjects in the store are the
  ones before the call followed by the integer \<^verbatim>\<open>int\<close> read from the last word,
  whatever that integer is: the marks are not checked against a range.
\<close>

theorem add_subject_command_marks:
  assumes "length (py_split cmd) = 6" "map_of dm (py_lower (py_split cmd ! 3)) = Some dv"
    "parse_date (py_split cmd ! 4) = Some dl" "py_int (py_split cmd ! 5) = Some mk"
  shows "hd (fst (add_subject_command dm cmd choice st)) = Added
    \<and> map marks (subjects (snd (add_subject_command dm cmd choice st)))
        = map marks (subjects st) @ [mk]"
proof -
  let ?subject = "\<lparr>name = py_split cmd ! 2, difficulty = dv, deadline = dl, marks = mk\<rparr>"
  let ?st1 = "save_subjects (st\<lparr>subjects := subjects st @ [?subject]\<rparr>)"
  have st1: "map marks (subjects ?st1) = map marks (subjects st) @ [mk]"
    by (simp add: save_subjects_def)
  show ?thesis
  proof (cases "detect_clashes (subjects ?st1)")
    case False
    with assms st1 show ?thesis
      by (simp add: add_subject_command_def Let_def)
  next
    case True
    obtain out st2 where hc: "handle_clashes choice ?st1 = (out, st2)"
      by (cases "handle_clashes choice ?st1")
    with handle_clashes_marks [of choice ?st1] st1
    have "map marks (subjects st2) = map marks (subjects st) @ [mk]" by simp
    with assms True hc show ?thesis
      by (simp add: add_subject_command_def Let_def)
  qed
qed

theorem add_subject_command_marks_witness:
  "length (py_split ''add subject Math low 2025-01-01 150'') = 6
   \<and> map_of DEFAULT_DIFF (py_lower (py_split ''add subject Math low 2025-01-01 150'' ! 3)) = Some 1
   \<and> parse_date (py_split ''add subject Math low 2025-01-01 150'' ! 4) = Some 739252
   \<and> py_int (py_split ''add subject Math low 2025-01-01 150'' ! 5) = Some 150
   \<and> map marks (subjects (snd (add_subject_command DEFAULT_DIFF
         ''add subject Math low 2025-01-01 150'' ''yes''
         \<lparr>subjects = two_clashing, saved = two_clashing\<rparr>)))
       = [50, 40, 150]"
proof -
  have a: "length (py_split ''add subject Math low 2025-01-01 150'') = 6"
    and b: "map_of DEFAULT_DIFF (py_lower (py_split ''add subject Math low 2025-01-01 150'' ! 3)) = Some 1"
    and c: "parse_date (py_split ''add subject Math low 2025-01-01 150'' ! 4) = Some 739252"
    and d: "py_int (py_split ''add subject Math low 2025-01-01 150'' ! 5) = Some 150"
    by (simp_all add: split_add_150 parse_2025_01_01 py_int_150 lower_low)
  from add_subject_command_marks [OF a b c d, of "''yes''"
      "\<lparr>subjects = two_clashing, saved = two_clashing\<rparr>"]
  show ?thesis using a b c d by (simp add: two_clashing_def)
qed

text \<open>
  Claim C9. When \<^verbatim>\<open>add_subject_command\<close> fails (the command does not have six words,
  the difficulty is not a key of \<^verbatim>\<open>difficulty_map\<close>, the deadline does not parse, or
  the marks are not an integer) it prints the one message of that failure and leaves the
  list and the saved file as they were; and so it does on every run whose output does
  not start with the message of success. When \<^verbatim>\<open>reschedule_subject\<close> fails (the
  command does not have three words, the date does not parse, or no subject carries
  the name) it prints the one message of that failure and leaves the store as it was;
  and so it does on every run that does not print the message of success.
\<close>

theorem failed_commands_keep_store:
  "(length (py_split cmd) \<noteq> 6 \<or> map_of dm (py_lower (py_split cmd ! 3)) = None
      \<or> parse_date (py_split cmd ! 4) = None \<or> py_int (py_split cmd ! 5) = None \<longrightarrow>
      snd (add_subject_command dm cmd choice st) = st
      \<and> fst (add_subject_command dm cmd choice st)
          \<in> {[InvalidFormatAdd], [InvalidDiff], [InvalidDate], [MarksNotInteger]})
   \<and> (hd (fst (add_subject_command dm cmd choice st)) \<noteq> Added \<longrightarrow>
      snd (add_subject_command dm cmd choice st) = st)
   \<and> (length (py_split cmd') \<noteq> 3 \<or> parse_date (py_split cmd' ! 2) = None
      \<or> py_split cmd' ! 1 \<notin> name ` set (subjects st) \<longrightarrow>
      snd (reschedule_subject cmd' st) = st
      \<and> fst (reschedule_subject cmd' st) \<in> {[InvalidFormatRes], [InvalidDate], [NotFound]})
   \<and> (fst (reschedule_subject cmd' st) \<noteq> [Rescheduled] \<longrightarrow>
      snd (reschedule_subject cmd' st) = st)"
  using add_failure_cases [of cmd dm choice st] add_not_added [of dm cmd choice st]
    reschedule_failure_cases [of cmd' st] reschedule_not_rescheduled [of cmd' st]
  by blast

theorem failed_commands_keep_store_witness:
  "py_int (py_split ''add subject Math low 2025-01-01 fifty'' ! 5) = None
   \<and> add_subject_command DEFAULT_DIFF ''add subject Math low 2025-01-01 fifty'' ''yes''
        \<lparr>subjects = two_clashing, saved = two_clashing\<rparr>
      = ([MarksNotInteger], \<lparr>subjects = two_clashing, saved = two_clashing\<rparr>)
   \<and> py_split ''reschedule Chem 2024-06-12'' ! 1 \<notin> name ` set two_clashing
   \<and> reschedule_subject ''reschedule Chem 2024-06-12''
        \<lparr>subjects = two_clashing, saved = two_clashing\<rparr>
      = ([NotFound], \<lparr>subjects = two_clashing, saved = two_clashing\<rparr>)"
proof -
  let ?st = "\<lparr>subjects = two_clashing, saved = two_clashing\<rparr>"
  let ?add = "''add subject Math low 2025-01-01 fifty''"
  let ?res = "''reschedule Chem 2024-06-12''"
  have a: "py_int (py_split ?add ! 5) = None"
    by (simp add: split_bad_marks py_int_fifty)
  have r: "py_split ?res ! 1 \<notin> name ` set (subjects ?st)"
    by (simp add: split_reschedule_chem two_clashing_def)
  have add_out: "fst (add_subject_command DEFAULT_DIFF ?add ''yes'' ?st) = [MarksNotInteger]"
    by (simp add: add_subject_command_def split_bad_marks py_int_fifty lower_low
        parse_2025_01_01 Let_def)
  have res_out: "fst (reschedule_subject ?res ?st) = [NotFound]"
    by (simp add: reschedule_subject_def split_reschedule_chem parse_2024_06_12 Let_def
        two_clashing_def)
  from failed_commands_keep_store [of ?add DEFAULT_DIFF "''yes''" ?st ?res] a r
  have "snd (add_subject_command DEFAULT_DIFF ?add ''yes'' ?st) = ?st"
    and "snd (reschedule_subject ?res ?st) = ?st"
    by blast+
  with add_out res_out a r show ?thesis
    by (simp add: prod_eq_iff)
qed

section \<open>The timetable of the scenario\<close>

lemma td_hours_1: "td_hours 1 = 3600000000"
  by (simp add: td_hours_def round_half_even_def)

lemma math_day_allocate:
  "allocate 1 10 (combine d 12) [''Math'']
     \<lparr>hours_left = [(''Math'', 2)], current_time = combine d 9, day_schedule = []\<rparr>
   = Some (Inr \<lparr>hours_left = [(''Math'', 0)], current_time = combine d 11 + td_minutes 20,
                day_schedule = two_math_blocks d\<rparr>)"
  apply (subst allocate.simps)
  apply (simp add: td_hours_1 combine_def td_minutes_def any_hours_def all_done_def)
  apply (subst allocate.simps)
  apply (simp add: td_hours_1 combine_def td_minutes_def any_hours_def all_done_def two_math_blocks_def)
  done

lemma render_two_math_blocks:
  "map render_block (two_math_blocks d) = [''09:00 - 10:00 : Math'', ''10:10 - 11:10 : Math'']"
  by (simp add: two_math_blocks_def render_block_def strftime_HM_def combine_def td_minutes_def
      two_digits_def)

lemma math_schedule_day:
  assumes "p 2 50 = 2" "off \<le> 3"
  shows "generate_plan p today (math_in_3 today) = Some plan \<Longrightarrow>
    schedule_day morning plan [''Math''] (today + int off) off (math_in_3 today)
      = Some (Inr (two_math_blocks (today + int off)))"
  using assms
  by (auto simp: generate_plan_def math_in_3_def plan_entry_of_def schedule_day_def morning_def
      day_order_of_def valid_hour_def math_day_allocate)


lemma math_active:
  "off \<le> 3 \<Longrightarrow> active_subjects (math_in_3 today) (today + int off) = math_in_3 today"
  by (simp add: active_subjects_def math_in_3_def)

lemma math_timetable_blocks:
  assumes "p 2 50 = 2" "generate_plan p today (math_in_3 today) = Some plan"
  shows "timetable_blocks (math_in_3 today) plan morning today
    = Some (Inr [(today, two_math_blocks today), (today + 1, two_math_blocks (today + 1)),
                 (today + 2, two_math_blocks (today + 2)), (today + 3, two_math_blocks (today + 3))])"
proof -
  have days: "[0..<nat (Max (set (map deadline (math_in_3 today))) - today + 1)] = [0, 1, 2, 3]"
    by (simp add: math_in_3_def upt_rec)
  have nm: "map name (math_in_3 today) = [''Math'']" and ne: "math_in_3 today \<noteq> []"
    by (simp_all add: math_in_3_def)
  have d0: "schedule_day morning plan [''Math''] today 0 (math_in_3 today)
      = Some (Inr (two_math_blocks today))"
    using math_schedule_day [OF assms(1) _ assms(2), of 0] by simp
  have d1: "schedule_day morning plan [''Math''] (today + 1) (Suc 0) (math_in_3 today)
      = Some (Inr (two_math_blocks (today + 1)))"
    using math_schedule_day [OF assms(1) _ assms(2), of 1] by simp
  have d2: "schedule_day morning plan [''Math''] (today + 2) 2 (math_in_3 today)
      = Some (Inr (two_math_blocks (today + 2)))"
    using math_schedule_day [OF assms(1) _ assms(2), of 2] by simp
  have d3: "schedule_day morning plan [''Math''] (today + 3) 3 (math_in_3 today)
      = Some (Inr (two_math_blocks (today + 3)))"
    using math_schedule_day [OF assms(1) _ assms(2), of 3] by simp
  have a0: "active_subjects (math_in_3 today) today = math_in_3 today"
    using math_active [of 0 today] by simp
  have a1: "active_subjects (math_in_3 today) (today + 1) = math_in_3 today"
    using math_active [of 1 today] by simp
  have a2: "active_subjects (math_in_3 today) (today + 2) = math_in_3 today"
    using math_active [of 2 today] by simp
  have a3: "active_subjects (math_in_3 today) (today + 3) = math_in_3 today"
    using math_active [of 3 today] by simp
  show ?thesis
    unfolding timetable_blocks_def Let_def days
    by (simp add: Let_def nm ne a0 a1 a2 a3 d0 d1 d2 d3)
qed

text \<open>
  Claim C1. With Math (difficulty 2, marks 50) due three days from today as the only
  subject, a predictor that returns 2 for it, and the window 9 to 12 with blocks of one
  hour, breaks of ten minutes and the fixed order, the \<^verbatim>\<open>timetable\<close> command prints
  four days, today to today + 3, each with exactly the two lines
  \<^verbatim>\<open>09:00 - 10:00 : Math\<close> and \<^verbatim>\<open>10:10 - 11:10 : Math\<close>.
\<close>

theorem scenario_timetable:
  assumes "p 2 50 = 2"
  shows "timetable_command p morning today (math_in_3 today)
    = Some (MultiDayTimetable
        [(today, [''09:00 - 10:00 : Math'', ''10:10 - 11:10 : Math'']),
         (today + 1, [''09:00 - 10:00 : Math'', ''10:10 - 11:10 : Math'']),
         (today + 2, [''09:00 - 10:00 : Math'', ''10:10 - 11:10 : Math'']),
         (today + 3, [''09:00 - 10:00 : Math'', ''10:10 - 11:10 : Math''])])"
proof -
  obtain plan where plan: "generate_plan p today (math_in_3 today) = Some plan"
    and pne: "plan \<noteq> []"
    by (simp add: generate_plan_def math_in_3_def)
  have ne: "math_in_3 today \<noteq> []" by (simp add: math_in_3_def)
  show ?thesis
    by (simp add: timetable_command_def plan generate_timetable_def ne pne
        math_timetable_blocks [OF assms plan] render_two_math_blocks)
qed

theorem scenario_timetable_witness:
  "timetable_command (\<lambda>d m. 2) morning 739047 (math_in_3 739047)
    = Some (MultiDayTimetable
        [(739047, [''09:00 - 10:00 : Math'', ''10:10 - 11:10 : Math'']),
         (739048, [''09:00 - 10:00 : Math'', ''10:10 - 11:10 : Math'']),
         (739049, [''09:00 - 10:00 : Math'', ''10:10 - 11:10 : Math'']),
         (739050, [''09:00 - 10:00 : Math'', ''10:10 - 11:10 : Math''])])"
  using scenario_timetable [of "\<lambda>d m. 2" 739047] by simp

section \<open>Properties of the timetable builder\<close>

subsection \<open>Rounding to microseconds\<close>

lemma round_half_even_floor:
  "round_half_even x = \<lfloor>x\<rfloor> \<or> round_half_even x = \<lfloor>x\<rfloor> + 1"
  by (simp add: round_half_even_def Let_def)

lemma round_half_even_mono:
  assumes "x \<le> y"
  shows "round_half_even x \<le> round_half_even y"
proof (cases "\<lfloor>x\<rfloor> = \<lfloor>y\<rfloor>")
  case True
  with assms have "x - of_int \<lfloor>x\<rfloor> \<le> y - of_int \<lfloor>y\<rfloor>" by simp
  with True show ?thesis
    by (auto simp: round_half_even_def Let_def)
next
  case False
  with assms have "\<lfloor>x\<rfloor> + 1 \<le> \<lfloor>y\<rfloor>"
    using floor_mono [of x y] by linarith
  moreover have "round_half_even x \<le> \<lfloor>x\<rfloor> + 1"
    using round_half_even_floor [of x] by linarith
  moreover have "\<lfloor>y\<rfloor> \<le> round_half_even y"
    using round_half_even_floor [of y] by linarith
  ultimately show ?thesis by linarith
qed

lemma round_half_even_nonneg: "0 \<le> x \<Longrightarrow> 0 \<le> round_half_even x"
proof -
  assume "0 \<le> x"
  then have "0 \<le> \<lfloor>x\<rfloor>" by simp
  with round_half_even_floor [of x] show ?thesis by linarith
qed

lemma td_hours_mono: "p \<le> q \<Longrightarrow> td_hours p \<le> td_hours q"
  unfolding td_hours_def by (rule round_half_even_mono) simp

lemma td_hours_nonneg: "0 \<le> q \<Longrightarrow> 0 \<le> td_hours q"
  unfolding td_hours_def by (rule round_half_even_nonneg) simp

lemma td_minutes_nonneg: "0 \<le> m \<Longrightarrow> 0 \<le> td_minutes m"
  by (simp add: td_minutes_def)

subsection \<open>One block\<close>

lemma rounds_in_order_exact: "rounds_in_order exact_arithmetic"
  unfolding rounds_in_order_def exact_arithmetic_def
  by (auto split: if_splits intro: td_hours_nonneg td_hours_mono order_trans)

lemma rounds_in_orderD:
  assumes "rounds_in_order ar" "0 \<le> p" "p \<le> q"
    "timedelta_hours ar p = Inr a" "timedelta_hours ar q = Inr b"
  shows "0 \<le> a" and "a \<le> b"
  using assms unfolding rounds_in_order_def by blast+

lemma block_limit_Inr:
  "block_limit ar bh t = Inr l \<longleftrightarrow>
     (\<exists>a. timedelta_hours ar bh = Inr a \<and> l = t + a \<and> MIN_DATETIME \<le> t + a \<and> t + a \<le> MAX_DATETIME)"
  by (auto simp: block_limit_def datetime_add_def split: sum.splits)

lemma allocate_block_Inr:
  assumes "allocate_block ar bh brk n h st = Inr (st1, limit)"
  obtains len h' where
    "timedelta_hours ar (min bh h) = Inr len"
    "subtract ar h (min bh h) = Inr h'"
    "st1 = \<lparr>hours_left = AList.update n h' (hours_left st),
            current_time = current_time st + len + td_minutes brk,
            day_schedule = day_schedule st
              @ [\<lparr>b_start = current_time st, b_end = current_time st + len, b_name = n\<rparr>]\<rparr>"
    "block_limit ar bh (current_time st1) = Inr limit"
  using assms unfolding allocate_block_def
  by (auto simp: datetime_add_def timedelta_minutes_def split: sum.splits if_splits)

subsection \<open>What every block keeps true, the loops keep true\<close>

lemma for_pass_with_preserves:
  assumes step: "\<And>n h st st1 l limit. n \<in> N \<Longrightarrow> map_of (hours_left st) n = Some h \<Longrightarrow> 0 < h \<Longrightarrow>
       block_limit ar bh (current_time st) = Inr l \<Longrightarrow> l \<le> t1 \<Longrightarrow>
       allocate_block ar bh brk n h st = Inr (st1, limit) \<Longrightarrow> Q st \<Longrightarrow> Q st1"
  shows "for_pass_with ar bh brk t1 xs st = Inr st' \<Longrightarrow> set xs \<subseteq> N \<Longrightarrow>
     block_limit ar bh (current_time st) = Inr l \<Longrightarrow> l \<le> t1 \<Longrightarrow> Q st \<Longrightarrow> Q st'"
proof (induction xs arbitrary: st l)
  case Nil
  then show ?case by simp
next
  case (Cons n rest)
  from Cons.prems(1) obtain h where h: "map_of (hours_left st) n = Some h"
    by (cases "map_of (hours_left st) n") auto
  from Cons.prems(2) have n: "n \<in> N" and rest: "set rest \<subseteq> N" by simp_all
  show ?case
  proof (cases "h \<le> 0")
    case True
    with Cons.prems(1) h have "for_pass_with ar bh brk t1 rest st = Inr st'" by simp
    from Cons.IH [OF this rest Cons.prems(3,4,5)] show ?thesis .
  next
    case False
    then have hpos: "0 < h" by simp
    from Cons.prems(1) h False obtain st1 limit where
      ab: "allocate_block ar bh brk n h st = Inr (st1, limit)"
      by (cases "allocate_block ar bh brk n h st") auto
    have Q1: "Q st1"
      by (rule step [OF n h hpos Cons.prems(3,4) ab Cons.prems(5)])
    from ab have lim: "block_limit ar bh (current_time st1) = Inr limit"
      by (rule allocate_block_Inr)
    show ?thesis
    proof (cases "limit > t1")
      case True
      with Cons.prems(1) h False ab have "st' = st1" by simp
      with Q1 show ?thesis by simp
    next
      case guard: False
      with Cons.prems(1) h False ab have "for_pass_with ar bh brk t1 rest st1 = Inr st'"
        by simp
      from Cons.IH [OF this rest lim _ Q1] guard show ?thesis by simp
    qed
  qed
qed

lemmas allocate_with_induct = allocate_with.raw_induct [rotated, consumes 1, case_names step]

lemma allocate_with_preserves_aux:
  "allocate_with ar bh brk t1 order st = Some r \<Longrightarrow>
     (\<forall>n h st st1 l limit. n \<in> set order \<longrightarrow> map_of (hours_left st) n = Some h \<longrightarrow> 0 < h \<longrightarrow>
        block_limit ar bh (current_time st) = Inr l \<longrightarrow> l \<le> t1 \<longrightarrow>
        allocate_block ar bh brk n h st = Inr (st1, limit) \<longrightarrow> Q st \<longrightarrow> Q st1) \<longrightarrow>
     Q st \<longrightarrow> (\<forall>st'. r = Inr st' \<longrightarrow> Q st')"
proof (induction ar bh brk t1 order st r rule: allocate_with_induct)
  case (step allocate' ar bh brk t1 order st r)
  show ?case
  proof (intro impI allI)
    fix st'
    assume blocks: "\<forall>n h st st1 l limit. n \<in> set order \<longrightarrow> map_of (hours_left st) n = Some h \<longrightarrow>
        0 < h \<longrightarrow> block_limit ar bh (current_time st) = Inr l \<longrightarrow> l \<le> t1 \<longrightarrow>
        allocate_block ar bh brk n h st = Inr (st1, limit) \<longrightarrow> Q st \<longrightarrow> Q st1"
      and Q: "Q st" and r: "r = Inr st'"
    from step.hyps r obtain l where l: "block_limit ar bh (current_time st) = Inr l"
      by (cases "block_limit ar bh (current_time st)") auto
    show "Q st'"
    proof (cases "l \<le> t1 \<and> any_hours (hours_left st)")
      case False
      with step.hyps r l Q show ?thesis by auto
    next
      case True
      then have guard: "l \<le> t1" by simp
      show ?thesis
      proof (cases "for_pass_with ar bh brk t1 order st")
        case (Inl e)
        with step.hyps True r l show ?thesis by simp
      next
        case (Inr st1)
        have Q1: "Q st1"
          by (rule for_pass_with_preserves [where Q = Q and N = "set order", OF _ Inr subset_refl l guard Q])
            (use blocks in blast)
        show ?thesis
        proof (cases "all_done (hours_left st1)")
          case finished: True
          with step.hyps True Inr r l Q1 show ?thesis by simp
        next
          case False
          with step.hyps True Inr l have "allocate' ar bh brk t1 order st1 = Some r" by simp
          from step.IH [OF this] blocks Q1 r show ?thesis by blast
        qed
      qed
    qed
  qed
qed

lemma allocate_with_preserves:
  assumes "allocate_with ar bh brk t1 order st = Some (Inr st')" and "Q st"
    and "\<And>n h st st1 l limit. n \<in> set order \<Longrightarrow> map_of (hours_left st) n = Some h \<Longrightarrow> 0 < h \<Longrightarrow>
       block_limit ar bh (current_time st) = Inr l \<Longrightarrow> l \<le> t1 \<Longrightarrow>
       allocate_block ar bh brk n h st = Inr (st1, limit) \<Longrightarrow> Q st \<Longrightarrow> Q st1"
  shows "Q st'"
  using allocate_with_preserves_aux [OF assms(1), of Q] assms(2,3) by blast

subsection \<open>The blocks of a day are apart\<close>

lemma day_invariant_block:
  assumes ar: "rounds_in_order ar" and bh: "0 \<le> bh" and h: "0 < h" and brk: "0 \<le> brk"
    and lim: "block_limit ar bh (current_time st) = Inr l" and guard: "l \<le> t1"
    and ab: "allocate_block ar bh brk n h st = Inr (st1, limit)"
    and inv: "day_invariant (td_minutes brk) t0 t1 st"
  shows "day_invariant (td_minutes brk) t0 t1 st1"
proof -
  from lim obtain a where a: "timedelta_hours ar bh = Inr a" and l: "l = current_time st + a"
    by (auto simp: block_limit_Inr)
  from ab obtain len h' where len: "timedelta_hours ar (min bh h) = Inr len"
    and st1: "st1 = \<lparr>hours_left = AList.update n h' (hours_left st),
            current_time = current_time st + len + td_minutes brk,
            day_schedule = day_schedule st
              @ [\<lparr>b_start = current_time st, b_end = current_time st + len, b_name = n\<rparr>]\<rparr>"
    by (rule allocate_block_Inr)
  from bh h have "0 \<le> min bh h" "min bh h \<le> bh" by simp_all
  from rounds_in_orderD [OF ar this len a] have len0: "0 \<le> len" and lena: "len \<le> a" .
  have pause: "0 \<le> td_minutes brk"
    using brk by (rule td_minutes_nonneg)
  from inv have sorted: "sorted_wrt (\<lambda>a b. b_end a + td_minutes brk \<le> b_start b) (day_schedule st)"
    and win: "\<forall>b\<in>set (day_schedule st). t0 \<le> b_start b \<and> b_start b \<le> b_end b \<and> b_end b \<le> t1"
    and before: "\<forall>b\<in>set (day_schedule st). b_end b + td_minutes brk \<le> current_time st"
    and t0: "t0 \<le> current_time st"
    by (simp_all add: day_invariant_def blocks_apart_def list_all_iff)
  show ?thesis
    unfolding st1 day_invariant_def blocks_apart_def
    using sorted win before t0 len0 lena pause guard l
    by (auto simp: sorted_wrt_append list_all_iff)
qed

lemma allocate_with_invariant:
  assumes "allocate_with ar bh brk t1 order st = Some (Inr st')"
    and "rounds_in_order ar" "0 \<le> bh" "0 \<le> brk"
    and "day_invariant (td_minutes brk) t0 t1 st"
  shows "day_invariant (td_minutes brk) t0 t1 st'"
  using assms(1,5)
proof (rule allocate_with_preserves)
  fix n h st st1 l limit
  assume "0 < h" "block_limit ar bh (current_time st) = Inr l" "l \<le> t1"
    "allocate_block ar bh brk n h st = Inr (st1, limit)" "day_invariant (td_minutes brk) t0 t1 st"
  then show "day_invariant (td_minutes brk) t0 t1 st1"
    by (rule day_invariant_block [OF assms(2,3) _ assms(4)])
qed

lemma blocks_apart_sorted_start:
  assumes "blocks_apart pause t0 t1 bs" "0 \<le> pause"
  shows "sorted (map b_start bs)"
proof -
  from assms have s: "sorted_wrt (\<lambda>a b. b_end a + pause \<le> b_start b) bs"
    and w: "\<forall>b\<in>set bs. b_start b \<le> b_end b"
    by (auto simp: blocks_apart_def list_all_iff)
  have "sorted_wrt (\<lambda>a b. b_start a \<le> b_start b) bs"
  proof (rule sorted_wrt_mono_rel [OF _ s])
    fix a b assume "a \<in> set bs" "b \<in> set bs" "b_end a + pause \<le> b_start b"
    with w assms(2) show "b_start a \<le> b_start b" by force
  qed
  then show ?thesis by (simp add: sorted_map)
qed

lemma blocks_apart_increasing_start:
  assumes "blocks_apart pause t0 t1 bs" "0 < pause"
  shows "sorted_wrt (\<lambda>a b. b_start a < b_start b) bs"
proof -
  from assms have s: "sorted_wrt (\<lambda>a b. b_end a + pause \<le> b_start b) bs"
    and w: "\<forall>b\<in>set bs. b_start b \<le> b_end b"
    by (auto simp: blocks_apart_def list_all_iff)
  show ?thesis
  proof (rule sorted_wrt_mono_rel [OF _ s])
    fix a b assume "a \<in> set bs" "b \<in> set bs" "b_end a + pause \<le> b_start b"
    with w assms(2) show "b_start a < b_start b" by force
  qed
qed

lemma blocks_apart_no_overlap:
  assumes "blocks_apart pause t0 t1 bs" "0 \<le> pause"
  shows "sorted_wrt (\<lambda>a b. b_end a \<le> b_start b) bs"
proof -
  from assms have s: "sorted_wrt (\<lambda>a b. b_end a + pause \<le> b_start b) bs"
    by (simp add: blocks_apart_def)
  show ?thesis
    by (rule sorted_wrt_mono_rel [OF _ s]) (use assms(2) in simp)
qed

subsection \<open>The names on the blocks of a day\<close>




subsection \<open>A subject with hours left receives a block when there is room\<close>



subsection \<open>The hours of a day and its order\<close>



lemma init_hours_total:
  "name ` set ss \<subseteq> fst ` set plan \<Longrightarrow> \<exists>hl. init_hours plan ss acc = Inr hl"
proof (induction ss arbitrary: acc)
  case Nil
  then show ?case by simp
next
  case (Cons s ss)
  from Cons.prems have "name s \<in> fst ` set plan" by simp
  then obtain e where e: "map_of plan (name s) = Some e"
    by (metis domD dom_map_of_conv_image_fst)
  from Cons.prems have "name ` set ss \<subseteq> fst ` set plan" by simp
  from Cons.IH [OF this] e show ?case by simp
qed



lemma active_subjects_subset: "set (active_subjects subs d) \<subseteq> set subs"
  by (auto simp: active_subjects_def)

lemma active_subjects_deadline:
  "s \<in> set (active_subjects subs d) \<longleftrightarrow> s \<in> set subs \<and> d \<le> deadline s"
  by (auto simp: active_subjects_def)


subsection \<open>One day\<close>

lemma schedule_day_with_cases:
  assumes "schedule_day_with ar w plan fixed_order d off active = Some (Inr bs)"
  obtains hl st' where "init_hours plan active [] = Inr hl"
    "valid_hour (start_hour w)" "valid_hour (end_hour w)"
    "allocate_with ar (block_hours w) (break_minutes w) (combine d (end_hour w))
       (day_order_of (order_pref w) fixed_order active off)
       \<lparr>hours_left = hl, current_time = combine d (start_hour w), day_schedule = []\<rparr>
     = Some (Inr st')"
    "bs = day_schedule st'"
  using assms
  by (auto simp: schedule_day_with_def Let_def split: sum.splits if_splits option.splits)

lemma schedule_day_with_apart:
  assumes "schedule_day_with ar w plan fixed_order d off active = Some (Inr bs)"
    "rounds_in_order ar" "0 \<le> block_hours w" "0 \<le> break_minutes w"
  shows "blocks_apart (td_minutes (break_minutes w)) (combine d (start_hour w))
     (combine d (end_hour w)) bs"
proof -
  from assms(1) obtain hl st' where run:
    "allocate_with ar (block_hours w) (break_minutes w) (combine d (end_hour w))
       (day_order_of (order_pref w) fixed_order active off)
       \<lparr>hours_left = hl, current_time = combine d (start_hour w), day_schedule = []\<rparr>
     = Some (Inr st')" and bs: "bs = day_schedule st'"
    by (rule schedule_day_with_cases)
  have "day_invariant (td_minutes (break_minutes w)) (combine d (start_hour w))
     (combine d (end_hour w))
     \<lparr>hours_left = hl, current_time = combine d (start_hour w), day_schedule = []\<rparr>"
    by (simp add: day_invariant_def blocks_apart_def)
  from allocate_with_invariant [OF run assms(2,3,4) this] bs show ?thesis
    by (simp add: day_invariant_def)
qed



subsection \<open>The loop over the days\<close>

lemma days_loop_with_entries:
  "days_loop_with ar w plan subs today offs tt = Some (Inr tt') \<Longrightarrow> (d, bs) \<in> set tt' \<Longrightarrow>
     (d, bs) \<in> set tt
     \<or> (\<exists>off\<in>set offs. d = today + int off \<and> active_subjects subs d \<noteq> []
          \<and> schedule_day_with ar w plan (map name subs) d off (active_subjects subs d)
              = Some (Inr bs))"
proof (induction offs arbitrary: tt)
  case Nil
  then show ?case by simp
next
  case (Cons off offs)
  let ?d = "today + int off"
  show ?case
  proof (cases "active_subjects subs ?d = []")
    case True
    with Cons.prems have "days_loop_with ar w plan subs today offs tt = Some (Inr tt')"
      by (simp add: Let_def)
    from Cons.IH [OF this Cons.prems(2)] show ?thesis by auto
  next
    case False
    with Cons.prems(1) obtain blocks where
      day: "schedule_day_with ar w plan (map name subs) ?d off (active_subjects subs ?d)
              = Some (Inr blocks)"
      and rec: "days_loop_with ar w plan subs today offs (AList.update ?d blocks tt) = Some (Inr tt')"
      by (auto simp: Let_def split: option.splits sum.splits)
    from Cons.IH [OF rec Cons.prems(2)] show ?thesis
    proof
      assume "(d, bs) \<in> set (AList.update ?d blocks tt)"
      with set_update_subset [of ?d blocks tt] have "(d, bs) = (?d, blocks) \<or> (d, bs) \<in> set tt"
        by auto
      with day False show ?thesis by auto
    next
      assume "\<exists>off\<in>set offs. d = today + int off \<and> active_subjects subs d \<noteq> []
          \<and> schedule_day_with ar w plan (map name subs) d off (active_subjects subs d)
              = Some (Inr bs)"
      then show ?thesis by auto
    qed
  qed
qed



subsection \<open>The whole timetable\<close>

lemma timetable_blocks_with_day:
  assumes "timetable_blocks_with ar subs plan w today = Some (Inr tt)" "(d, bs) \<in> set tt"
  shows "active_subjects subs d \<noteq> [] \<and>
    (\<exists>off. schedule_day_with ar w plan (map name subs) d off (active_subjects subs d)
       = Some (Inr bs))"
  using days_loop_with_entries [OF assms(1) [unfolded timetable_blocks_with_def Let_def] assms(2)]
  by auto



subsection \<open>A window that closes before it opens\<close>

lemma allocate_with_guard_fails:
  assumes "block_limit ar bh (current_time st) = Inr l" "t1 < l"
  shows "allocate_with ar bh brk t1 order st = Some (Inr st)"
  by (subst allocate_with.simps) (use assms in simp)

lemma allocate_with_guard_raises:
  assumes "block_limit ar bh (current_time st) = Inl e"
  shows "allocate_with ar bh brk t1 order st = Some (Inl e)"
  by (subst allocate_with.simps) (use assms in simp)

lemma schedule_day_with_closed_window:
  assumes "valid_hour (start_hour w)" "valid_hour (end_hour w)"
    "end_hour w \<le> start_hour w" "timedelta_hours ar (block_hours w) = Inr a" "0 < a"
    "name ` set active \<subseteq> fst ` set plan"
  shows "schedule_day_with ar w plan fixed_order d off active
    = Some (if MIN_DATETIME \<le> combine d (start_hour w) + a
               \<and> combine d (start_hour w) + a \<le> MAX_DATETIME
            then Inr [] else Inl OverflowError)"
proof -
  from init_hours_total [OF assms(6)] obtain hl where hl: "init_hours plan active [] = Inr hl"
    by blast
  let ?st = "\<lparr>hours_left = hl, current_time = combine d (start_hour w), day_schedule = []\<rparr>"
  let ?order = "day_order_of (order_pref w) fixed_order active off"
  show ?thesis
  proof (cases "MIN_DATETIME \<le> combine d (start_hour w) + a
               \<and> combine d (start_hour w) + a \<le> MAX_DATETIME")
    case True
    with assms(4) have lim: "block_limit ar (block_hours w) (current_time ?st)
        = Inr (combine d (start_hour w) + a)"
      by (simp add: block_limit_def datetime_add_def)
    have "combine d (end_hour w) < combine d (start_hour w) + a"
      using assms(3,5) by (simp add: combine_def)
    from allocate_with_guard_fails [OF lim this]
    have "allocate_with ar (block_hours w) (break_minutes w) (combine d (end_hour w)) ?order ?st
        = Some (Inr ?st)" .
    with hl assms(1,2) True show ?thesis
      by (simp add: schedule_day_with_def Let_def)
  next
    case False
    with assms(4) have "block_limit ar (block_hours w) (current_time ?st) = Inl OverflowError"
      by (auto simp: block_limit_def datetime_add_def)
    from allocate_with_guard_raises [OF this]
    have "allocate_with ar (block_hours w) (break_minutes w) (combine d (end_hour w)) ?order ?st
        = Some (Inl OverflowError)" .
    with hl assms(1,2) False show ?thesis
      by (simp add: schedule_day_with_def Let_def)
  qed
qed

lemma days_loop_with_empty_days:
  assumes "\<forall>off\<in>set offs. active_subjects subs (today + int off) \<noteq> []"
    and "\<forall>off\<in>set offs.
       schedule_day_with ar w plan (map name subs) (today + int off) off
           (active_subjects subs (today + int off))
         = Some (if ok (today + int off) then Inr [] else Inl OverflowError)"
  shows "days_loop_with ar w plan subs today offs tt
    = (if \<forall>off\<in>set offs. ok (today + int off)
       then Some (Inr (fold (\<lambda>off. AList.update (today + int off) []) offs tt))
       else Some (Inl OverflowError))"
  using assms
proof (induction offs arbitrary: tt)
  case Nil
  then show ?case by simp
next
  case (Cons off offs)
  from Cons.prems have rest: "\<forall>off\<in>set offs. active_subjects subs (today + int off) \<noteq> []"
    "\<forall>off\<in>set offs.
       schedule_day_with ar w plan (map name subs) (today + int off) off
           (active_subjects subs (today + int off))
         = Some (if ok (today + int off) then Inr [] else Inl OverflowError)"
    by simp_all
  from Cons.prems have active: "active_subjects subs (today + int off) \<noteq> []"
    and day: "schedule_day_with ar w plan (map name subs) (today + int off) off
           (active_subjects subs (today + int off))
         = Some (if ok (today + int off) then Inr [] else Inl OverflowError)"
    by simp_all
  show ?case
  proof (cases "ok (today + int off)")
    case True
    with active day Cons.IH [OF rest] show ?thesis
      by (simp add: Let_def)
  next
    case False
    with active day show ?thesis
      by (simp add: Let_def)
  qed
qed

lemma update_fresh:
  "k \<notin> fst ` set al \<Longrightarrow> AList.update k v al = al @ [(k, v)]"
  by (induction al) auto

lemma fold_update_days:
  "fold (\<lambda>off. AList.update (today + int off) v) [0..<n] []
     = map (\<lambda>off. (today + int off, v)) [0..<n]"
proof (induction n)
  case 0
  then show ?case by simp
next
  case (Suc n)
  have "today + int n \<notin> fst ` set (map (\<lambda>off. (today + int off, v)) [0..<n])"
    by auto
  from update_fresh [OF this] Suc show ?case
    by simp
qed

lemma active_until_last_day:
  assumes "subs \<noteq> []" "d \<le> Max (set (map deadline subs))"
  shows "active_subjects subs d \<noteq> []"
proof -
  from assms(1) have "Max (set (map deadline subs)) \<in> set (map deadline subs)"
    by (intro Max_in) simp_all
  then obtain s where "s \<in> set subs" "deadline s = Max (set (map deadline subs))"
    by auto
  with assms(2) have "s \<in> set (active_subjects subs d)"
    by (simp add: active_subjects_deadline)
  then show ?thesis by auto
qed

lemma closed_window_blocks:
  assumes "subs \<noteq> []" "valid_hour (start_hour w)" "valid_hour (end_hour w)"
    "end_hour w \<le> start_hour w" "timedelta_hours ar (block_hours w) = Inr a" "0 < a"
    "name ` set subs \<subseteq> fst ` set plan"
  shows "timetable_blocks_with ar subs plan w today
    = (if \<forall>off\<in>set [0..<nat (Max (set (map deadline subs)) - today + 1)].
            MIN_DATETIME \<le> combine (today + int off) (start_hour w) + a
            \<and> combine (today + int off) (start_hour w) + a \<le> MAX_DATETIME
       then Some (Inr (map (\<lambda>off. (today + int off, []))
                         [0..<nat (Max (set (map deadline subs)) - today + 1)]))
       else Some (Inl OverflowError))"
proof -
  let ?offs = "[0..<nat (Max (set (map deadline subs)) - today + 1)]"
  let ?ok = "\<lambda>d. MIN_DATETIME \<le> combine d (start_hour w) + a
            \<and> combine d (start_hour w) + a \<le> MAX_DATETIME"
  have active: "\<forall>off\<in>set ?offs. active_subjects subs (today + int off) \<noteq> []"
  proof
    fix off assume "off \<in> set ?offs"
    then have "today + int off \<le> Max (set (map deadline subs))" by auto
    from active_until_last_day [OF assms(1) this]
    show "active_subjects subs (today + int off) \<noteq> []" .
  qed
  have day: "\<forall>off\<in>set ?offs.
       schedule_day_with ar w plan (map name subs) (today + int off) off
           (active_subjects subs (today + int off))
         = Some (if ?ok (today + int off) then Inr [] else Inl OverflowError)"
  proof
    fix off
    have "name ` set (active_subjects subs (today + int off)) \<subseteq> fst ` set plan"
      using active_subjects_subset [of subs "today + int off"] assms(7) by auto
    from schedule_day_with_closed_window [OF assms(2-6) this]
    show "schedule_day_with ar w plan (map name subs) (today + int off) off
           (active_subjects subs (today + int off))
         = Some (if ?ok (today + int off) then Inr [] else Inl OverflowError)" .
  qed
  show ?thesis
    unfolding timetable_blocks_with_def Let_def
    by (simp only: days_loop_with_empty_days [where ok = ?ok, OF active day] fold_update_days)
qed

lemma closed_window_command:
  assumes "subs \<noteq> []" "valid_hour (start_hour w)" "valid_hour (end_hour w)"
    "end_hour w \<le> start_hour w" "timedelta_hours ar (block_hours w) = Inr a" "0 < a"
  shows "timetable_command_with ar p w today subs
    = (if \<forall>off\<in>set [0..<nat (Max (set (map deadline subs)) - today + 1)].
            MIN_DATETIME \<le> combine (today + int off) (start_hour w) + a
            \<and> combine (today + int off) (start_hour w) + a \<le> MAX_DATETIME
       then Some (MultiDayTimetable (map (\<lambda>off. (today + int off, []))
                         [0..<nat (Max (set (map deadline subs)) - today + 1)]))
       else Some (TimetableRaised OverflowError))"
proof -
  from assms(1) obtain plan where plan: "generate_plan p today subs = Some plan"
    by (simp add: generate_plan_def)
  from generate_plan_keys [OF plan] have keys: "fst ` set plan = name ` set subs" .
  with assms(1) have pne: "plan \<noteq> []" by auto
  from keys have "name ` set subs \<subseteq> fst ` set plan" by simp
  note blocks = closed_window_blocks [OF assms this, of today]
  show ?thesis
  proof (cases "\<forall>off\<in>set [0..<nat (Max (set (map deadline subs)) - today + 1)].
            MIN_DATETIME \<le> combine (today + int off) (start_hour w) + a
            \<and> combine (today + int off) (start_hour w) + a \<le> MAX_DATETIME")
    case True
    then have "timetable_blocks_with ar subs plan w today
        = Some (Inr (map (\<lambda>off. (today + int off, []))
                         [0..<nat (Max (set (map deadline subs)) - today + 1)]))"
      unfolding blocks by (rule if_P)
    with True assms(1) pne plan show ?thesis
      by (simp add: timetable_command_with_def generate_timetable_with_def comp_def)
  next
    case False
    then have "timetable_blocks_with ar subs plan w today = Some (Inl OverflowError)"
      unfolding blocks by (rule if_not_P)
    with False assms(1) pne plan show ?thesis
      by (simp add: timetable_command_with_def generate_timetable_with_def)
  qed
qed

subsection \<open>The examples\<close>

lemma scenario_blocks_with:
  "timetable_blocks_with exact_arithmetic (math_in_3 739047)
      [(''Math'', \<lparr>daily_hours = 2, days_left = 3, plan_deadline = 739050\<rparr>)] morning 739047
    = Some (Inr [(739047, two_math_blocks 739047), (739048, two_math_blocks 739048),
                 (739049, two_math_blocks 739049), (739050, two_math_blocks 739050)])"
  by code_simp

lemma two_easy_blocks:
  "timetable_blocks_with exact_arithmetic two_easy
      [(''Math'', \<lparr>daily_hours = 1, days_left = 1, plan_deadline = 739047\<rparr>),
       (''Physics'', \<lparr>daily_hours = 1, days_left = 1, plan_deadline = 739048\<rparr>)]
      short_of_an_hour 739047
    = Some (Inr [(739047, two_easy_day),
                 (739048, [\<lparr>b_start = combine 739048 9, b_end = combine 739048 10, b_name = ''Physics''\<rparr>,
                           \<lparr>b_start = combine 739048 10, b_end = combine 739048 10, b_name = ''Physics''\<rparr>])])"
  by code_simp

lemma two_easy_lines:
  "timetable_command_with exact_arithmetic (\<lambda>d m. 1) short_of_an_hour 739047 two_easy
    = Some (MultiDayTimetable
        [(739047, [''09:00 - 10:00 : Math'', ''10:00 - 11:00 : Physics'',
                   ''11:00 - 11:00 : Math'', ''11:00 - 11:00 : Physics'']),
         (739048, [''09:00 - 10:00 : Physics'', ''10:00 - 10:00 : Physics''])])"
  by code_simp

lemma closed_window_scenario:
  "timetable_command_with exact_arithmetic (\<lambda>d m. 2) closed_window 739047 (math_in_3 739047)
     = Some (MultiDayTimetable [(739047, []), (739048, []), (739049, []), (739050, [])])"
  by code_simp

lemma closed_window_overflow:
  "timetable_command_with exact_arithmetic (\<lambda>d m. 2) (closed_window\<lparr>block_hours := 100000000\<rparr>)
     739047 (math_in_3 739047)
     = Some (TimetableRaised OverflowError)"
  by code_simp

lemma negative_block_scenario:
  "timetable_command_with exact_arithmetic (\<lambda>d m. 2) backwards_window 739050 (math_in_3 739047)
     = Some (MultiDayTimetable
         [(739050, [''09:00 - 08:00 : Math'', ''10:00 - 09:00 : Math'', ''11:00 - 10:00 : Math'',
                    ''12:00 - 11:00 : Math'', ''13:00 - 12:00 : Math''])])"
  by code_simp

subsection \<open>The loop without rounding errors and range checks\<close>

text \<open>
  The model of the section \<open>Timetable\<close> leaves out the range checks of the library and
  computes with exact numbers. It agrees with the model over the arithmetic of the
  library wherever that one, run without rounding errors, builds a timetable.
\<close>

lemma allocate_block_exact:
  assumes "allocate_block exact_arithmetic bh brk n h st = Inr (st1, limit)"
  shows "st1 = \<lparr>hours_left = AList.update n (h - min bh h) (hours_left st),
            current_time = current_time st + td_hours (min bh h) + td_minutes brk,
            day_schedule = day_schedule st
              @ [\<lparr>b_start = current_time st, b_end = current_time st + td_hours (min bh h),
                  b_name = n\<rparr>]\<rparr>"
    and "limit = current_time st1 + td_hours bh"
proof -
  from assms obtain len h' where len: "timedelta_hours exact_arithmetic (min bh h) = Inr len"
    and h': "subtract exact_arithmetic h (min bh h) = Inr h'"
    and st1: "st1 = \<lparr>hours_left = AList.update n h' (hours_left st),
            current_time = current_time st + len + td_minutes brk,
            day_schedule = day_schedule st
              @ [\<lparr>b_start = current_time st, b_end = current_time st + len, b_name = n\<rparr>]\<rparr>"
    and lim: "block_limit exact_arithmetic bh (current_time st1) = Inr limit"
    by (rule allocate_block_Inr)
  from len have "len = td_hours (min bh h)"
    by (auto simp: exact_arithmetic_def split: if_splits)
  moreover from h' have "h' = h - min bh h"
    by (auto simp: exact_arithmetic_def)
  ultimately show "st1 = \<lparr>hours_left = AList.update n (h - min bh h) (hours_left st),
            current_time = current_time st + td_hours (min bh h) + td_minutes brk,
            day_schedule = day_schedule st
              @ [\<lparr>b_start = current_time st, b_end = current_time st + td_hours (min bh h),
                  b_name = n\<rparr>]\<rparr>"
    using st1 by simp
  from lim show "limit = current_time st1 + td_hours bh"
    by (auto simp: block_limit_Inr exact_arithmetic_def split: if_splits)
qed

lemma for_pass_with_exact:
  "for_pass_with exact_arithmetic bh brk t1 xs st = Inr st' \<Longrightarrow> for_pass bh brk t1 xs st = Inr st'"
proof (induction xs arbitrary: st)
  case Nil
  then show ?case by simp
next
  case (Cons n rest)
  from Cons.prems obtain h where h: "map_of (hours_left st) n = Some h"
    by (cases "map_of (hours_left st) n") auto
  show ?case
  proof (cases "h \<le> 0")
    case True
    with Cons.prems h have "for_pass_with exact_arithmetic bh brk t1 rest st = Inr st'" by simp
    from Cons.IH [OF this] h True show ?thesis by simp
  next
    case False
    from Cons.prems h False obtain st1 limit where
      ab: "allocate_block exact_arithmetic bh brk n h st = Inr (st1, limit)"
      by (cases "allocate_block exact_arithmetic bh brk n h st") auto
    note st1 = allocate_block_exact [OF ab]
    show ?thesis
    proof (cases "limit > t1")
      case True
      with Cons.prems h False ab have "st' = st1" by simp
      with h False True st1 show ?thesis by (simp add: Let_def)
    next
      case guard: False
      with Cons.prems h False ab have "for_pass_with exact_arithmetic bh brk t1 rest st1 = Inr st'"
        by simp
      from Cons.IH [OF this] h False guard st1 show ?thesis by (simp add: Let_def)
    qed
  qed
qed

lemma allocate_with_exact_aux:
  "allocate_with ar bh brk t1 order st = Some r \<Longrightarrow>
     ar = exact_arithmetic \<longrightarrow> (\<forall>st'. r = Inr st' \<longrightarrow> allocate bh brk t1 order st = Some (Inr st'))"
proof (induction ar bh brk t1 order st r rule: allocate_with_induct)
  case (step allocate' ar bh brk t1 order st r)
  show ?case
  proof (intro impI allI)
    fix st'
    assume ar: "ar = exact_arithmetic" and r: "r = Inr st'"
    from step.hyps r obtain l where l: "block_limit ar bh (current_time st) = Inr l"
      by (cases "block_limit ar bh (current_time st)") auto
    with ar have lim: "l = current_time st + td_hours bh"
      by (auto simp: block_limit_Inr exact_arithmetic_def split: if_splits)
    show "allocate bh brk t1 order st = Some (Inr st')"
    proof (cases "l \<le> t1 \<and> any_hours (hours_left st)")
      case False
      with step.hyps r l have "st' = st" by auto
      with False lim show ?thesis
        by (subst allocate.simps) auto
    next
      case True
      show ?thesis
      proof (cases "for_pass_with ar bh brk t1 order st")
        case (Inl e)
        with step.hyps True r l show ?thesis by simp
      next
        case (Inr st1)
        with ar have pass: "for_pass bh brk t1 order st = Inr st1"
          by (simp add: for_pass_with_exact)
        show ?thesis
        proof (cases "all_done (hours_left st1)")
          case finished: True
          with step.hyps True Inr r l have "st' = st1" by simp
          with True lim pass finished show ?thesis
            by (subst allocate.simps) simp
        next
          case False
          with step.hyps True Inr l have "allocate' ar bh brk t1 order st1 = Some r" by simp
          from step.IH [OF this] ar r have "allocate bh brk t1 order st1 = Some (Inr st')"
            by simp
          with True lim pass False show ?thesis
            by (subst allocate.simps) simp
        qed
      qed
    qed
  qed
qed

lemma allocate_with_exact:
  assumes "allocate_with exact_arithmetic bh brk t1 order st = Some (Inr st')"
  shows "allocate bh brk t1 order st = Some (Inr st')"
  using allocate_with_exact_aux [OF assms] by simp

lemma schedule_day_with_exact:
  assumes "schedule_day_with exact_arithmetic w plan fixed_order d off active = Some (Inr bs)"
  shows "schedule_day w plan fixed_order d off active = Some (Inr bs)"
proof -
  from assms obtain hl st' where "init_hours plan active [] = Inr hl"
    "valid_hour (start_hour w)" "valid_hour (end_hour w)"
    "allocate_with exact_arithmetic (block_hours w) (break_minutes w) (combine d (end_hour w))
       (day_order_of (order_pref w) fixed_order active off)
       \<lparr>hours_left = hl, current_time = combine d (start_hour w), day_schedule = []\<rparr>
     = Some (Inr st')"
    "bs = day_schedule st'"
    by (rule schedule_day_with_cases)
  with allocate_with_exact [OF this(4)] show ?thesis
    by (simp add: schedule_day_def Let_def)
qed

lemma days_loop_with_exact:
  "days_loop_with exact_arithmetic w plan subs today offs tt = Some (Inr tt') \<Longrightarrow>
     days_loop w plan subs today offs tt = Some (Inr tt')"
proof (induction offs arbitrary: tt)
  case Nil
  then show ?case by simp
next
  case (Cons off offs)
  let ?d = "today + int off"
  show ?case
  proof (cases "active_subjects subs ?d = []")
    case True
    with Cons.prems have "days_loop_with exact_arithmetic w plan subs today offs tt = Some (Inr tt')"
      by (simp add: Let_def)
    from Cons.IH [OF this] True show ?thesis by (simp add: Let_def)
  next
    case False
    with Cons.prems obtain blocks where
      day: "schedule_day_with exact_arithmetic w plan (map name subs) ?d off
              (active_subjects subs ?d) = Some (Inr blocks)"
      and rec: "days_loop_with exact_arithmetic w plan subs today offs (AList.update ?d blocks tt)
                  = Some (Inr tt')"
      by (auto simp: Let_def split: option.splits sum.splits)
    from Cons.IH [OF rec] schedule_day_with_exact [OF day] False show ?thesis
      by (simp add: Let_def)
  qed
qed

lemma timetable_command_with_exact:
  assumes "timetable_command_with exact_arithmetic p w today subs = Some (MultiDayTimetable lines)"
  shows "timetable_command p w today subs = Some (MultiDayTimetable lines)"
proof -
  from assms obtain plan where plan: "generate_plan p today subs = Some plan"
    and gen: "generate_timetable_with exact_arithmetic subs plan w today
        = Some (MultiDayTimetable lines)"
    by (auto simp: timetable_command_with_def split: option.splits)
  from gen have ne: "subs \<noteq> []" "plan \<noteq> []"
    by (auto simp: generate_timetable_with_def split: if_splits)
  with gen obtain tt where tt: "timetable_blocks_with exact_arithmetic subs plan w today
      = Some (Inr tt)"
    and lines: "lines = map (\<lambda>(day, blocks). (day, map render_block blocks)) tt"
    by (auto simp: generate_timetable_with_def split: option.splits sum.splits)
  from tt have "timetable_blocks subs plan w today = Some (Inr tt)"
    unfolding timetable_blocks_with_def timetable_blocks_def Let_def
    by (rule days_loop_with_exact)
  with plan ne lines show ?thesis
    by (simp add: timetable_command_def generate_timetable_def)
qed

text \<open>
  The scenario of the specification once more, with the range checks: for every date
  of today from which the deadline is a date of the calendar, the \<^verbatim>\<open>timetable\<close> command
  prints the same four days.
\<close>

lemma math_day_allocate_with:
  assumes "1 \<le> d" "d \<le> MAXORDINAL"
  shows "allocate_with exact_arithmetic 1 10 (combine d 12) [''Math'']
     \<lparr>hours_left = [(''Math'', 2)], current_time = combine d 9, day_schedule = []\<rparr>
   = Some (Inr \<lparr>hours_left = [(''Math'', 0)], current_time = combine d 11 + td_minutes 20,
                day_schedule = two_math_blocks d\<rparr>)"
  using assms
  apply (subst allocate_with.simps)
  apply (simp add: block_limit_def allocate_block_def datetime_add_def timedelta_minutes_def
      exact_arithmetic_def timedelta_in_range_def td_hours_1 combine_def td_minutes_def
      any_hours_def all_done_def MIN_DATETIME_def MAX_DATETIME_def MAXORDINAL_def)
  apply (subst allocate_with.simps)
  apply (simp add: block_limit_def allocate_block_def datetime_add_def timedelta_minutes_def
      exact_arithmetic_def timedelta_in_range_def td_hours_1 combine_def td_minutes_def
      any_hours_def all_done_def MIN_DATETIME_def MAX_DATETIME_def MAXORDINAL_def
      two_math_blocks_def)
  done

lemma math_schedule_day_with:
  assumes "p 2 50 = 2" "off \<le> 3" "1 \<le> today" "today + 3 \<le> MAXORDINAL"
  shows "generate_plan p today (math_in_3 today) = Some plan \<Longrightarrow>
    schedule_day_with exact_arithmetic morning plan [''Math''] (today + int off) off
        (math_in_3 today)
      = Some (Inr (two_math_blocks (today + int off)))"
proof -
  assume plan: "generate_plan p today (math_in_3 today) = Some plan"
  from assms(2-4) have "1 \<le> today + int off" "today + int off \<le> MAXORDINAL" by simp_all
  note day = math_day_allocate_with [OF this]
  from plan assms(1) show ?thesis
    by (auto simp: generate_plan_def math_in_3_def plan_entry_of_def schedule_day_with_def
        morning_def day_order_of_def valid_hour_def day)
qed

lemma scenario_timetable_in_range:
  assumes "p 2 50 = 2" "1 \<le> today" "today + 3 \<le> MAXORDINAL"
  shows "timetable_command_with exact_arithmetic p morning today (math_in_3 today)
    = Some (MultiDayTimetable
        [(today, [''09:00 - 10:00 : Math'', ''10:10 - 11:10 : Math'']),
         (today + 1, [''09:00 - 10:00 : Math'', ''10:10 - 11:10 : Math'']),
         (today + 2, [''09:00 - 10:00 : Math'', ''10:10 - 11:10 : Math'']),
         (today + 3, [''09:00 - 10:00 : Math'', ''10:10 - 11:10 : Math''])])"
proof -
  obtain plan where plan: "generate_plan p today (math_in_3 today) = Some plan"
    and pne: "plan \<noteq> []"
    by (simp add: generate_plan_def math_in_3_def)
  have days: "[0..<nat (Max (set (map deadline (math_in_3 today))) - today + 1)] = [0, 1, 2, 3]"
    by (simp add: math_in_3_def upt_rec)
  have nm: "map name (math_in_3 today) = [''Math'']" and ne: "math_in_3 today \<noteq> []"
    by (simp_all add: math_in_3_def)
  note day = math_schedule_day_with [OF assms(1) _ assms(2,3) plan]
  have d0: "schedule_day_with exact_arithmetic morning plan [''Math''] today 0 (math_in_3 today)
      = Some (Inr (two_math_blocks today))"
    using day [of 0] by simp
  have d1: "schedule_day_with exact_arithmetic morning plan [''Math''] (today + 1) (Suc 0)
      (math_in_3 today) = Some (Inr (two_math_blocks (today + 1)))"
    using day [of 1] by simp
  have d2: "schedule_day_with exact_arithmetic morning plan [''Math''] (today + 2) 2
      (math_in_3 today) = Some (Inr (two_math_blocks (today + 2)))"
    using day [of 2] by simp
  have d3: "schedule_day_with exact_arithmetic morning plan [''Math''] (today + 3) 3
      (math_in_3 today) = Some (Inr (two_math_blocks (today + 3)))"
    using day [of 3] by simp
  have a0: "active_subjects (math_in_3 today) today = math_in_3 today"
    using math_active [of 0 today] by simp
  have a1: "active_subjects (math_in_3 today) (today + 1) = math_in_3 today"
    using math_active [of 1 today] by simp
  have a2: "active_subjects (math_in_3 today) (today + 2) = math_in_3 today"
    using math_active [of 2 today] by simp
  have a3: "active_subjects (math_in_3 today) (today + 3) = math_in_3 today"
    using math_active [of 3 today] by simp
  have "timetable_blocks_with exact_arithmetic (math_in_3 today) plan morning today
    = Some (Inr [(today, two_math_blocks today), (today + 1, two_math_blocks (today + 1)),
                 (today + 2, two_math_blocks (today + 2)), (today + 3, two_math_blocks (today + 3))])"
    unfolding timetable_blocks_with_def Let_def days
    by (simp add: Let_def nm ne a0 a1 a2 a3 d0 d1 d2 d3)
  then show ?thesis
    by (simp add: timetable_command_with_def plan generate_timetable_with_def ne pne
        render_two_math_blocks)
qed

subsection \<open>The claims about the timetable\<close>

text \<open>
  Claim C2, as stated: with \<^verbatim>\<open>start_hour < end_hour\<close>, \<^verbatim>\<open>block_hours > 0\<close> and
  \<^verbatim>\<open>break_minutes >= 0\<close>, the blocks of a day are in the order of increasing start
  times. With two subjects that need an hour each, no break and blocks of
  \<open>1 - 1 / 2 ^ 40\<close> hours, every subject has \<open>1 / 2 ^ 40\<close> hours left after its first
  block; that length rounds to zero microseconds, so the third and the fourth block of
  the first day both start (and end) at 11:00, and the day is printed with the lines
  \<^verbatim>\<open>11:00 - 11:00 : Math\<close> and \<^verbatim>\<open>11:00 - 11:00 : Physics\<close>.
\<close>

theorem start_times_not_increasing:
  "start_hour short_of_an_hour < end_hour short_of_an_hour
   \<and> 0 < block_hours short_of_an_hour \<and> 0 \<le> break_minutes short_of_an_hour
   \<and> timetable_command_with exact_arithmetic (\<lambda>d m. 1) short_of_an_hour 739047 two_easy
       = Some (MultiDayTimetable
           [(739047, [''09:00 - 10:00 : Math'', ''10:00 - 11:00 : Physics'',
                      ''11:00 - 11:00 : Math'', ''11:00 - 11:00 : Physics'']),
            (739048, [''09:00 - 10:00 : Physics'', ''10:00 - 10:00 : Physics''])])
   \<and> generate_plan (\<lambda>d m. 1) 739047 two_easy
       = Some [(''Math'', \<lparr>daily_hours = 1, days_left = 1, plan_deadline = 739047\<rparr>),
               (''Physics'', \<lparr>daily_hours = 1, days_left = 1, plan_deadline = 739048\<rparr>)]
   \<and> timetable_blocks_with exact_arithmetic two_easy
         [(''Math'', \<lparr>daily_hours = 1, days_left = 1, plan_deadline = 739047\<rparr>),
          (''Physics'', \<lparr>daily_hours = 1, days_left = 1, plan_deadline = 739048\<rparr>)]
         short_of_an_hour 739047
       = Some (Inr [(739047, two_easy_day),
                    (739048, [\<lparr>b_start = combine 739048 9, b_end = combine 739048 10,
                               b_name = ''Physics''\<rparr>,
                              \<lparr>b_start = combine 739048 10, b_end = combine 739048 10,
                               b_name = ''Physics''\<rparr>])])
   \<and> map b_start two_easy_day
       = [combine 739047 9, combine 739047 10, combine 739047 11, combine 739047 11]
   \<and> \<not> sorted_wrt (\<lambda>a b. b_start a < b_start b) two_easy_day"
proof -
  have pre: "start_hour short_of_an_hour < end_hour short_of_an_hour"
    "0 < block_hours short_of_an_hour" "0 \<le> break_minutes short_of_an_hour"
    by (simp_all add: short_of_an_hour_def)
  have plan: "generate_plan (\<lambda>d m. 1) 739047 two_easy
       = Some [(''Math'', \<lparr>daily_hours = 1, days_left = 1, plan_deadline = 739047\<rparr>),
               (''Physics'', \<lparr>daily_hours = 1, days_left = 1, plan_deadline = 739048\<rparr>)]"
    by (simp add: generate_plan_def two_easy_def plan_entry_of_def days_between_def)
  have starts: "map b_start two_easy_day
       = [combine 739047 9, combine 739047 10, combine 739047 11, combine 739047 11]"
    by (simp add: two_easy_day_def)
  have equal: "\<not> sorted_wrt (\<lambda>a b. b_start a < b_start b) two_easy_day"
    by (simp add: two_easy_day_def)
  show ?thesis
    by (intro conjI pre two_easy_lines plan two_easy_blocks starts equal)
qed

text \<open>
  Claim C2, amended. Let the conversion of hours to microseconds keep the order
  (\<^const>\<open>rounds_in_order\<close>, as the library's does), \<^verbatim>\<open>block_hours > 0\<close> and
  \<^verbatim>\<open>break_minutes >= 0\<close>. In every day of a timetable that \<^verbatim>\<open>generate_timetable\<close>
  builds, each block ends at least a break before every later block starts, so no two
  blocks overlap; no block starts before the day's \<^verbatim>\<open>start_hour\<close>, ends before it
  starts, or ends after the day's \<^verbatim>\<open>end_hour\<close>; and the start times never decrease.
  They increase from a block to every later one unless the earlier block is empty
  (it starts and ends at one time, and the later block starts at that time too); in
  particular they increase when the break is longer than zero minutes. The theorem is
  about the timetables the program builds: it may also raise \<^verbatim>\<open>OverflowError\<close>,
  \<^verbatim>\<open>KeyError\<close> or \<^verbatim>\<open>ValueError\<close>, or never leave the loop of a day. (The proof
  does not use \<^verbatim>\<open>start_hour < end_hour\<close>.)
\<close>

theorem day_blocks_never_overlap:
  assumes "rounds_in_order ar" "0 < block_hours w" "0 \<le> break_minutes w"
    and "timetable_blocks_with ar subs plan w today = Some (Inr tt)"
  shows "\<forall>(d, blocks)\<in>set tt.
      blocks_apart (td_minutes (break_minutes w)) (combine d (start_hour w))
        (combine d (end_hour w)) blocks
      \<and> sorted_wrt (\<lambda>a b. b_end a \<le> b_start b) blocks
      \<and> sorted (map b_start blocks)
      \<and> sorted_wrt (\<lambda>a b. b_start a < b_start b
                            \<or> (b_start a = b_start b \<and> b_end a = b_start a)) blocks
      \<and> (0 < break_minutes w \<longrightarrow> sorted_wrt (\<lambda>a b. b_start a < b_start b) blocks)"
proof clarify
  fix d blocks assume "(d, blocks) \<in> set tt"
  from timetable_blocks_with_day [OF assms(4) this] obtain off where
    "schedule_day_with ar w plan (map name subs) d off (active_subjects subs d) = Some (Inr blocks)"
    by blast
  from schedule_day_with_apart [OF this assms(1) _ assms(3)] assms(2)
  have apart: "blocks_apart (td_minutes (break_minutes w)) (combine d (start_hour w))
        (combine d (end_hour w)) blocks"
    by simp
  have pause: "0 \<le> td_minutes (break_minutes w)"
    using assms(3) by (rule td_minutes_nonneg)
  from apart have s: "sorted_wrt (\<lambda>a b. b_end a + td_minutes (break_minutes w) \<le> b_start b) blocks"
    and w: "\<forall>b\<in>set blocks. b_start b \<le> b_end b"
    by (auto simp: blocks_apart_def list_all_iff)
  have empty: "sorted_wrt (\<lambda>a b. b_start a < b_start b
                            \<or> (b_start a = b_start b \<and> b_end a = b_start a)) blocks"
  proof (rule sorted_wrt_mono_rel [OF _ s])
    fix a b assume "a \<in> set blocks" "b \<in> set blocks"
      "b_end a + td_minutes (break_minutes w) \<le> b_start b"
    with w pause show "b_start a < b_start b \<or> (b_start a = b_start b \<and> b_end a = b_start a)"
      by force
  qed
  have strict: "sorted_wrt (\<lambda>a b. b_start a < b_start b) blocks" if "0 < break_minutes w"
  proof -
    from that have "0 < td_minutes (break_minutes w)" by (simp add: td_minutes_def)
    from blocks_apart_increasing_start [OF apart this] show ?thesis .
  qed
  from apart blocks_apart_no_overlap [OF apart pause] blocks_apart_sorted_start [OF apart pause]
    empty strict
  show "blocks_apart (td_minutes (break_minutes w)) (combine d (start_hour w))
        (combine d (end_hour w)) blocks
      \<and> sorted_wrt (\<lambda>a b. b_end a \<le> b_start b) blocks
      \<and> sorted (map b_start blocks)
      \<and> sorted_wrt (\<lambda>a b. b_start a < b_start b
                            \<or> (b_start a = b_start b \<and> b_end a = b_start a)) blocks
      \<and> (0 < break_minutes w \<longrightarrow> sorted_wrt (\<lambda>a b. b_start a < b_start b) blocks)"
    by blast
qed

theorem day_blocks_never_overlap_witness:
  "rounds_in_order exact_arithmetic \<and> 0 < block_hours morning \<and> 0 < break_minutes morning
   \<and> timetable_blocks_with exact_arithmetic (math_in_3 739047)
        [(''Math'', \<lparr>daily_hours = 2, days_left = 3, plan_deadline = 739050\<rparr>)] morning 739047
      = Some (Inr [(739047, two_math_blocks 739047), (739048, two_math_blocks 739048),
                   (739049, two_math_blocks 739049), (739050, two_math_blocks 739050)])
   \<and> blocks_apart (td_minutes (break_minutes morning)) (combine 739050 (start_hour morning))
        (combine 739050 (end_hour morning)) (two_math_blocks 739050)
   \<and> sorted_wrt (\<lambda>a b. b_end a \<le> b_start b) (two_math_blocks 739050)
   \<and> sorted_wrt (\<lambda>a b. b_start a < b_start b) (two_math_blocks 739050)"
proof -
  have pre: "0 < block_hours morning" "0 \<le> break_minutes morning" "0 < break_minutes morning"
    by (simp_all add: morning_def)
  from day_blocks_never_overlap [OF rounds_in_order_exact pre(1,2) scenario_blocks_with] pre(3)
  have "blocks_apart (td_minutes (break_minutes morning)) (combine 739050 (start_hour morning))
        (combine 739050 (end_hour morning)) (two_math_blocks 739050)
      \<and> sorted_wrt (\<lambda>a b. b_end a \<le> b_start b) (two_math_blocks 739050)
      \<and> sorted_wrt (\<lambda>a b. b_start a < b_start b) (two_math_blocks 739050)"
    by simp
  with rounds_in_order_exact pre scenario_blocks_with show ?thesis by simp
qed



text \<open>
  Claim C4, as stated: a window with \<^verbatim>\<open>end_hour <= start_hour\<close> is rejected with
  \<^verbatim>\<open>InvalidWindow\<close> before the allocation loop runs. The program has no such check:
  with the window from 12 to 9 the \<^verbatim>\<open>timetable\<close> command raises nothing and prints the
  four days of the scenario, each without blocks.
\<close>

theorem closed_window_not_rejected:
  "end_hour closed_window \<le> start_hour closed_window
   \<and> timetable_command_with exact_arithmetic (\<lambda>d m. 2) closed_window 739047 (math_in_3 739047)
     = Some (MultiDayTimetable [(739047, []), (739048, []), (739049, []), (739050, [])])"
proof -
  have "end_hour closed_window \<le> start_hour closed_window"
    by (simp add: closed_window_def)
  then show ?thesis
    by (intro conjI closed_window_scenario)
qed

text \<open>
  Claim C4, amended. When there are subjects, the two hours are in 0..23,
  \<^verbatim>\<open>end_hour <= start_hour\<close> and \<^verbatim>\<open>block_hours\<close> converts to a length of at least a
  microsecond, the \<^verbatim>\<open>timetable\<close> command is not rejected. The loop of every day, from
  today to the last deadline, evaluates its guard once: the addition
  \<^verbatim>\<open>current_time + timedelta(hours=block_hours)\<close> either leaves the range of
  \<^verbatim>\<open>datetime\<close>, and the command ends with \<^verbatim>\<open>OverflowError\<close>, or gives a time after
  \<^verbatim>\<open>end_time\<close>, and the day gets no blocks. So the command prints every day from today
  to the last deadline without blocks, or raises \<^verbatim>\<open>OverflowError\<close>; it prints the
  days when a block that starts at \<^verbatim>\<open>start_hour\<close> of the last deadline ends before the
  year 10000.
\<close>

theorem closed_window_empty_days:
  assumes "subs \<noteq> []" "valid_hour (start_hour w)" "valid_hour (end_hour w)"
    "end_hour w \<le> start_hour w" "timedelta_hours ar (block_hours w) = Inr a" "0 < a"
  shows "timetable_command_with ar p w today subs
      = (if \<forall>off\<in>set [0..<nat (Max (set (map deadline subs)) - today + 1)].
              MIN_DATETIME \<le> combine (today + int off) (start_hour w) + a
              \<and> combine (today + int off) (start_hour w) + a \<le> MAX_DATETIME
         then Some (MultiDayTimetable (map (\<lambda>off. (today + int off, []))
                           [0..<nat (Max (set (map deadline subs)) - today + 1)]))
         else Some (TimetableRaised OverflowError))
    \<and> (1 \<le> today \<and> combine (Max (set (map deadline subs))) (start_hour w) + a \<le> MAX_DATETIME \<longrightarrow>
         timetable_command_with ar p w today subs
           = Some (MultiDayTimetable (map (\<lambda>off. (today + int off, []))
                           [0..<nat (Max (set (map deadline subs)) - today + 1)])))"
proof (intro conjI impI)
  show "timetable_command_with ar p w today subs
      = (if \<forall>off\<in>set [0..<nat (Max (set (map deadline subs)) - today + 1)].
              MIN_DATETIME \<le> combine (today + int off) (start_hour w) + a
              \<and> combine (today + int off) (start_hour w) + a \<le> MAX_DATETIME
         then Some (MultiDayTimetable (map (\<lambda>off. (today + int off, []))
                           [0..<nat (Max (set (map deadline subs)) - today + 1)]))
         else Some (TimetableRaised OverflowError))"
    by (rule closed_window_command [OF assms])
next
  assume range: "1 \<le> today \<and> combine (Max (set (map deadline subs))) (start_hour w) + a \<le> MAX_DATETIME"
  have "\<forall>off\<in>set [0..<nat (Max (set (map deadline subs)) - today + 1)].
              MIN_DATETIME \<le> combine (today + int off) (start_hour w) + a
              \<and> combine (today + int off) (start_hour w) + a \<le> MAX_DATETIME"
  proof
    fix off assume "off \<in> set [0..<nat (Max (set (map deadline subs)) - today + 1)]"
    then have "today + int off \<le> Max (set (map deadline subs))" by auto
    with range assms(2,6)
    show "MIN_DATETIME \<le> combine (today + int off) (start_hour w) + a
              \<and> combine (today + int off) (start_hour w) + a \<le> MAX_DATETIME"
      by (auto simp: combine_def MIN_DATETIME_def valid_hour_def)
  qed
  then show "timetable_command_with ar p w today subs
           = Some (MultiDayTimetable (map (\<lambda>off. (today + int off, []))
                           [0..<nat (Max (set (map deadline subs)) - today + 1)]))"
    unfolding closed_window_command [OF assms] by (rule if_P)
qed

theorem closed_window_empty_days_witness:
  "math_in_3 739047 \<noteq> [] \<and> valid_hour (start_hour closed_window)
   \<and> valid_hour (end_hour closed_window) \<and> end_hour closed_window \<le> start_hour closed_window
   \<and> timedelta_hours exact_arithmetic (block_hours closed_window) = Inr 3600000000
   \<and> combine (Max (set (map deadline (math_in_3 739047)))) (start_hour closed_window) + 3600000000
       \<le> MAX_DATETIME
   \<and> timetable_command_with exact_arithmetic (\<lambda>d m. 2) closed_window 739047 (math_in_3 739047)
       = Some (MultiDayTimetable [(739047, []), (739048, []), (739049, []), (739050, [])])"
proof -
  have pre: "math_in_3 739047 \<noteq> []" "valid_hour (start_hour closed_window)"
    "valid_hour (end_hour closed_window)" "end_hour closed_window \<le> start_hour closed_window"
    "timedelta_hours exact_arithmetic (block_hours closed_window) = Inr 3600000000"
    "(0::int) < 3600000000"
    by (simp_all add: math_in_3_def closed_window_def valid_hour_def exact_arithmetic_def
        td_hours_1 timedelta_in_range_def)
  have range: "(1::int) \<le> 739047 \<and>
      combine (Max (set (map deadline (math_in_3 739047)))) (start_hour closed_window) + 3600000000
       \<le> MAX_DATETIME"
    by (simp add: math_in_3_def closed_window_def combine_def MAX_DATETIME_def)
  from closed_window_empty_days [OF pre, of "\<lambda>d m. 2" 739047] range
  have "timetable_command_with exact_arithmetic (\<lambda>d m. 2) closed_window 739047 (math_in_3 739047)
       = Some (MultiDayTimetable (map (\<lambda>off. (739047 + int off, []))
             [0..<nat (Max (set (map deadline (math_in_3 739047))) - 739047 + 1)]))"
    by blast
  with pre range closed_window_scenario show ?thesis by simp
qed

end
